theory Spec2Isabelle
  imports Complex_Main
begin

section \<open>JavaScript values\<close>

text \<open>
  The extractor of \<^verbatim>\<open>content.js\<close> and the payload builder of
  \<^verbatim>\<open>sidebar-webhook.js\<close> work on what \<^verbatim>\<open>response.json()\<close> returns and on
  object literals built from it. A value is \<^verbatim>\<open>undefined\<close>, \<^verbatim>\<open>null\<close>, a boolean, a
  number, a string, an array or a plain object. An object is the list of its own
  properties in enumeration order. Finite numbers are exact rationals (the rounding of
  IEEE doubles is not modelled), \<^verbatim>\<open>NaN\<close> is a value of its own, and the two infinities
  are left out. Strings are lists of 8-bit characters.
\<close>

datatype jsval =
    JUndefined
  | JNull
  | JBool bool
  | JNum rat
  | JNaN
  | JStr string
  | JArr "jsval list"
  | JObj "(string \<times> jsval) list"

text \<open>The only exception the modelled code can raise: reading a property of
  \<^verbatim>\<open>null\<close> or \<^verbatim>\<open>undefined\<close>, or calling a method that is not there.\<close>

datatype error = TypeError

text \<open>\<^verbatim>\<open>!!v\<close>\<close>

fun truthy :: "jsval \<Rightarrow> bool" where
  "truthy JUndefined = False"
| "truthy JNull = False"
| "truthy (JBool b) = b"
| "truthy (JNum x) = (x \<noteq> 0)"
| "truthy JNaN = False"
| "truthy (JStr s) = (s \<noteq> [])"
| "truthy (JArr xs) = True"
| "truthy (JObj kvs) = True"

text \<open>\<^verbatim>\<open>a || b\<close>\<close>

definition js_or :: "jsval \<Rightarrow> jsval \<Rightarrow> jsval" where
  "js_or a b = (if truthy a then a else b)"

text \<open>\<^verbatim>\<open>Array.isArray(v)\<close>, and the elements of an array.\<close>

fun isArray :: "jsval \<Rightarrow> bool" where
  "isArray (JArr xs) = True"
| "isArray v = False"

fun elems :: "jsval \<Rightarrow> jsval list" where
  "elems (JArr xs) = xs"
| "elems v = []"

text \<open>
  \<^verbatim>\<open>v.key\<close> on a value that is neither \<^verbatim>\<open>null\<close> nor \<^verbatim>\<open>undefined\<close>. The keys the
  code reads (\<^verbatim>\<open>story\<close>, \<^verbatim>\<open>duration\<close>, \<^verbatim>\<open>words\<close>, \<^verbatim>\<open>hidden\<close>, \<^verbatim>\<open>text\<close>, ...) are no
  properties of strings, numbers, booleans or arrays, so they are \<^verbatim>\<open>undefined\<close> there.
\<close>

fun js_prop :: "jsval \<Rightarrow> string \<Rightarrow> jsval" where
  "js_prop (JObj kvs) key = (case map_of kvs key of Some v \<Rightarrow> v | None \<Rightarrow> JUndefined)"
| "js_prop v key = JUndefined"

text \<open>\<^verbatim>\<open>v.key\<close> on any value: a \<^verbatim>\<open>TypeError\<close> on \<^verbatim>\<open>null\<close> and \<^verbatim>\<open>undefined\<close>.\<close>

fun js_get :: "jsval \<Rightarrow> string \<Rightarrow> error + jsval" where
  "js_get JNull key = Inl TypeError"
| "js_get JUndefined key = Inl TypeError"
| "js_get v key = Inr (js_prop v key)"

text \<open>\<^verbatim>\<open>xs[i]\<close> on an array: \<^verbatim>\<open>undefined\<close> past the end.\<close>

definition js_index :: "jsval list \<Rightarrow> nat \<Rightarrow> jsval" where
  "js_index xs i = (if i < length xs then xs ! i else JUndefined)"

section \<open>Numbers and strings of the host\<close>

text \<open>The decimal digits of a natural number.\<close>

fun digits_of :: "nat \<Rightarrow> string" where
  "digits_of n =
     (if n < 10 then [''0123456789'' ! n]
      else digits_of (n div 10) @ [''0123456789'' ! (n mod 10)])"

declare digits_of.simps [simp del]

text \<open>
  \<^verbatim>\<open>Number.prototype.toString\<close>. An integer of magnitude below \<open>10\<^sup>2\<^sup>1\<close> prints as its
  decimal digits. Every other number prints as the shortest decimal that reads back as
  the same double, which depends on the floating-point representation: that part is the
  parameter \<open>host\<close>.
\<close>

definition number_toString :: "(rat \<Rightarrow> string) \<Rightarrow> rat \<Rightarrow> string" where
  "number_toString host x =
     (if of_int \<lfloor>x\<rfloor> = x \<and> \<bar>x\<bar> < 10 ^ 21
      then (if x < 0 then ''-'' @ digits_of (nat \<lfloor>- x\<rfloor>) else digits_of (nat \<lfloor>x\<rfloor>))
      else host x)"

text \<open>\<^verbatim>\<open>a % b\<close>: the remainder has the sign of the dividend.\<close>

definition js_rem :: "rat \<Rightarrow> rat \<Rightarrow> rat" where
  "js_rem a b =
     (let q = a / b; t = (if 0 \<le> q then \<lfloor>q\<rfloor> else \<lceil>q\<rceil>) in a - b * of_int t)"

text \<open>\<^verbatim>\<open>s.padStart(n, c)\<close> for a one-character pad.\<close>

definition padStart :: "nat \<Rightarrow> char \<Rightarrow> string \<Rightarrow> string" where
  "padStart n c s = replicate (n - length s) c @ s"

text \<open>\<^verbatim>\<open>s.trim()\<close>, on the ASCII white space.\<close>

definition is_space :: "char \<Rightarrow> bool" where
  "is_space c = (c \<in> set [CHR '' '', CHR 0x09, CHR 0x0A, CHR 0x0B, CHR 0x0C, CHR 0x0D])"

definition trim :: "string \<Rightarrow> string" where
  "trim s = rev (dropWhile is_space (rev (dropWhile is_space s)))"

text \<open>\<^verbatim>\<open>xs.join(sep)\<close> on strings.\<close>

fun join :: "string \<Rightarrow> string list \<Rightarrow> string" where
  "join sep [] = []"
| "join sep [s] = s"
| "join sep (s # t # rest) = s @ sep @ join sep (t # rest)"

section \<open>Duration normalisation\<close>

text \<open>
  \<^verbatim>\<open>formatDuration\<close> (content.js 337-375), from the point where \<^verbatim>\<open>value\<close> is set:
  \<^verbatim>\<open>if (!value || value <= 0) return null;\<close> then the threshold at 10000.
  \<open>None\<close> is the initial \<^verbatim>\<open>value = null\<close>.
\<close>

definition totalSeconds :: "rat option \<Rightarrow> jsval" where
  "totalSeconds v =
     (case v of
        None \<Rightarrow> JNull
      | Some x \<Rightarrow>
          if x = 0 \<or> x \<le> 0 then JNull
          else if x > 10000 then JNum (of_int \<lfloor>x / 1000\<rfloor>)
          else JNum (of_int \<lfloor>x\<rfloor>))"

lemma size_map_of: "map_of kvs key = Some v \<Longrightarrow> size v < size (JObj kvs)"
  by (induction kvs) (auto split: if_splits)

text \<open>
  \<^verbatim>\<open>formatDuration(input)\<close>. \<open>pf\<close> is the host's \<^verbatim>\<open>parseFloat\<close>, \<open>None\<close> for
  \<^verbatim>\<open>NaN\<close>. The three branches are those of the source, in its order: a number that is
  not \<^verbatim>\<open>NaN\<close>; a string that \<^verbatim>\<open>parseFloat\<close> reads; a truthy value with a truthy
  \<^verbatim>\<open>duration\<close>, on which the function calls itself. Nothing in the body throws, so the
  \<^verbatim>\<open>catch\<close> is never entered.
\<close>

function formatDuration :: "(string \<Rightarrow> rat option) \<Rightarrow> jsval \<Rightarrow> jsval" where
  "formatDuration pf input =
     (case input of
        JNum x \<Rightarrow> totalSeconds (Some x)
      | JStr s \<Rightarrow> (if pf s \<noteq> None then totalSeconds (pf s) else totalSeconds None)
      | _ \<Rightarrow>
          if truthy input \<and> truthy (js_prop input ''duration'')
          then formatDuration pf (js_prop input ''duration'')
          else totalSeconds None)"
  by pat_completeness auto
termination
proof (relation "measure (\<lambda>(pf, input). size input)")
  show "wf (measure (\<lambda>(pf, input). size input))" by simp
qed (auto split: option.splits dest: size_map_of)

declare formatDuration.simps [simp del]

section \<open>Timestamps\<close>

text \<open>\<^verbatim>\<open>formatTimestamp\<close> (content.js 377-385; sidebar-webhook.js 1002-1007 is the
  same text): the preview formatter.\<close>

fun formatTimestamp :: "(rat \<Rightarrow> string) \<Rightarrow> jsval \<Rightarrow> string" where
  "formatTimestamp host (JNum seconds) =
     (let minutes = of_int \<lfloor>seconds / 60\<rfloor>;
          remainingSeconds = js_rem seconds 60
      in number_toString host minutes @ '':''
         @ padStart 2 (CHR ''0'') (number_toString host remainingSeconds))"
| "formatTimestamp host JNaN = ''NaN:NaN''"
| "formatTimestamp host v = ''0:00''"

text \<open>\<^verbatim>\<open>formatTimestampWithLeadingZeros\<close> (sidebar-webhook.js 1012-1022).\<close>

fun formatTimestampWithLeadingZeros :: "(rat \<Rightarrow> string) \<Rightarrow> jsval \<Rightarrow> string" where
  "formatTimestampWithLeadingZeros host (JNum seconds) =
     (let hours = of_int \<lfloor>seconds / 3600\<rfloor>;
          minutes = of_int \<lfloor>js_rem seconds 3600 / 60\<rfloor>;
          remainingSeconds = of_int \<lfloor>js_rem seconds 60\<rfloor>
      in if hours > 0
         then padStart 2 (CHR ''0'') (number_toString host hours) @ '':''
              @ padStart 2 (CHR ''0'') (number_toString host minutes) @ '':''
              @ padStart 2 (CHR ''0'') (number_toString host remainingSeconds)
         else padStart 2 (CHR ''0'') (number_toString host minutes) @ '':''
              @ padStart 2 (CHR ''0'') (number_toString host remainingSeconds))"
| "formatTimestampWithLeadingZeros host JNaN = ''NaN:NaN''"
| "formatTimestampWithLeadingZeros host v = ''00:00''"

section \<open>Recursive pruning\<close>

text \<open>
  \<^verbatim>\<open>cleanObject\<close> (content.js 165-179) walks \<^verbatim>\<open>Object.keys(obj)\<close>, deletes a key
  whose value is \<^verbatim>\<open>null\<close> or \<^verbatim>\<open>undefined\<close>, cleans a value that is an object and no
  array, and deletes its key when the cleaned object has no keys left. The source
  mutates the object in place and returns it; on a record that is a tree this is the
  function below, which returns the properties that remain, in their order. Where the
  record shares an object between two places the mutation is visible in both: that
  case is the subject of the store model further down.
\<close>

function cleanObject :: "(string \<times> jsval) list \<Rightarrow> (string \<times> jsval) list" where
  "cleanObject [] = []"
| "cleanObject ((key, v) # rest) =
     (if v = JNull \<or> v = JUndefined then cleanObject rest
      else (case v of
              JObj inner \<Rightarrow>
                (let cleaned = cleanObject inner
                 in if cleaned = [] then cleanObject rest
                    else (key, JObj cleaned) # cleanObject rest)
            | _ \<Rightarrow> (key, v) # cleanObject rest))"
  by pat_completeness auto
termination
  by (relation "measure (size_list (size_prod (\<lambda>_. 0) size))") auto

section \<open>Transcription payload\<close>

text \<open>Running a fallible function over a list; the first exception ends the run.\<close>

fun mapE :: "('a \<Rightarrow> error + 'b) \<Rightarrow> 'a list \<Rightarrow> error + 'b list" where
  "mapE f [] = Inr []"
| "mapE f (x # xs) =
     (case f x of
        Inl e \<Rightarrow> Inl e
      | Inr y \<Rightarrow> (case mapE f xs of Inl e \<Rightarrow> Inl e | Inr ys \<Rightarrow> Inr (y # ys)))"

fun filterE :: "('a \<Rightarrow> error + bool) \<Rightarrow> 'a list \<Rightarrow> error + 'a list" where
  "filterE p [] = Inr []"
| "filterE p (x # xs) =
     (case p x of
        Inl e \<Rightarrow> Inl e
      | Inr b \<Rightarrow>
          (case filterE p xs of
             Inl e \<Rightarrow> Inl e
           | Inr ys \<Rightarrow> Inr (if b then x # ys else ys)))"

text \<open>
  The three stages of \<^verbatim>\<open>formatTranscriptFromWords\<close> (content.js 241-244).
  \<^verbatim>\<open>word => !word.hidden && word.text\<close> throws on a word that is \<^verbatim>\<open>null\<close> or
  \<^verbatim>\<open>undefined\<close>; \<^verbatim>\<open>word => word.text.trim()\<close> throws when the truthy
  \<^verbatim>\<open>text\<close> is no string, which has no \<^verbatim>\<open>trim\<close>.
\<close>

definition visible_word :: "jsval \<Rightarrow> error + bool" where
  "visible_word word =
     (case js_get word ''hidden'' of
        Inl e \<Rightarrow> Inl e
      | Inr hidden \<Rightarrow>
          if truthy hidden then Inr False
          else (case js_get word ''text'' of
                  Inl e \<Rightarrow> Inl e
                | Inr text \<Rightarrow> Inr (truthy text)))"

definition trimmed_text :: "jsval \<Rightarrow> error + string" where
  "trimmed_text word =
     (case js_get word ''text'' of
        Inl e \<Rightarrow> Inl e
      | Inr (JStr s) \<Rightarrow> Inr (trim s)
      | Inr _ \<Rightarrow> Inl TypeError)"

text \<open>\<^verbatim>\<open>formatTranscriptFromWords(words)\<close> (content.js 235-247).\<close>

definition formatTranscriptFromWords :: "jsval \<Rightarrow> error + string" where
  "formatTranscriptFromWords words =
     (if \<not> truthy words \<or> \<not> isArray words then Inr []
      else (case filterE visible_word (elems words) of
              Inl e \<Rightarrow> Inl e
            | Inr shown \<Rightarrow>
                (case mapE trimmed_text shown of
                   Inl e \<Rightarrow> Inl e
                 | Inr texts \<Rightarrow> Inr (join '' '' (filter (\<lambda>text. length text > 0) texts)))))"

text \<open>\<^verbatim>\<open>calculateTranscriptDuration(words)\<close> (content.js 249-257), called on an array.\<close>

definition calculateTranscriptDuration :: "jsval list \<Rightarrow> error + jsval" where
  "calculateTranscriptDuration ws =
     (if length ws = 0 then Inr (JNum 0)
      else (case js_get (js_index ws (length ws - 1)) ''end_'' of
              Inl e \<Rightarrow> Inl e
            | Inr e \<Rightarrow> Inr (js_or e (JNum 0))))"

text \<open>
  The metadata part of \<^verbatim>\<open>parseTranscriptionData\<close> (content.js 198-206), for a truthy
  payload: the properties put on \<^verbatim>\<open>result\<close> before the words are looked for.
\<close>

definition transcriptionMetadata :: "jsval \<Rightarrow> (string \<times> jsval) list" where
  "transcriptionMetadata td =
     (let t = js_prop td ''transcriptions''
      in if truthy t
         then (''transcriptionMetadata'', t)
              # (if isArray t \<and> length (elems t) > 1
                 then [(''transcriptionStatus'', js_or (js_index (elems t) 0) (JStr ''Unknown'')),
                       (''transcriptionDetails'', js_or (js_index (elems t) 1) (JArr []))]
                 else [])
         else [])"

text \<open>
  The search for the word array (content.js 209-220), for a truthy payload: the value
  of \<^verbatim>\<open>words\<close> when the search ends. \<^verbatim>\<open>transcriptionDetails[0].words\<close> throws when
  the first detail is \<^verbatim>\<open>null\<close>.
\<close>

definition locateWords :: "jsval \<Rightarrow> error + jsval" where
  "locateWords td =
     (let w = js_prop td ''words''; t = js_prop td ''transcriptions''
      in if truthy w \<and> isArray w then Inr w
         else if truthy t \<and> isArray t \<and> length (elems t) > 1
         then (let transcriptionDetails = js_index (elems t) 1
               in if isArray transcriptionDetails \<and> length (elems transcriptionDetails) > 0
                  then js_get (js_index (elems transcriptionDetails) 0) ''words''
                  else Inr JNull)
         else Inr JNull)"

text \<open>\<^verbatim>\<open>parseTranscriptionData(transcriptionData)\<close> (content.js 187-233): the
  properties of the object it returns.\<close>

definition parseTranscriptionData :: "jsval \<Rightarrow> error + (string \<times> jsval) list" where
  "parseTranscriptionData td =
     (if \<not> truthy td then Inr []
      else (case locateWords td of
              Inl e \<Rightarrow> Inl e
            | Inr words \<Rightarrow>
                if truthy words \<and> isArray words
                then (case formatTranscriptFromWords words of
                        Inl e \<Rightarrow> Inl e
                      | Inr transcript \<Rightarrow>
                          (case calculateTranscriptDuration (elems words) of
                             Inl e \<Rightarrow> Inl e
                           | Inr duration \<Rightarrow>
                               Inr (transcriptionMetadata td
                                    @ [(''transcriptionWords'', words),
                                       (''transcript'', JStr transcript),
                                       (''transcriptWordCount'', JNum (of_nat (length (elems words)))),
                                       (''transcriptDurationMs'', duration)])))
                else Inr (transcriptionMetadata td)))"

section \<open>Chapters\<close>

text \<open>\<^verbatim>\<open>parseChapters(chapters)\<close> (content.js 306-335). The callback reads
  \<^verbatim>\<open>chapter.id\<close> first, which throws on an entry that is \<^verbatim>\<open>null\<close>.\<close>

definition parseChapter :: "(rat \<Rightarrow> string) \<Rightarrow> jsval \<Rightarrow> error + jsval" where
  "parseChapter host chapter =
     (case js_get chapter ''id'' of
        Inl e \<Rightarrow> Inl e
      | Inr cid \<Rightarrow>
          Inr (JObj
            [(''id'', js_or cid JNull),
             (''timestamp'', js_or (js_prop chapter ''timestamp'') (JNum 0)),
             (''timestampFormatted'',
                JStr (formatTimestamp host (js_or (js_prop chapter ''timestamp'') (JNum 0)))),
             (''title'', js_or (js_prop chapter ''title'') (JStr [])),
             (''description'', js_or (js_prop chapter ''description'') (JStr []))]))"

definition parseChapters :: "(rat \<Rightarrow> string) \<Rightarrow> jsval \<Rightarrow> error + jsval list" where
  "parseChapters host chapters =
     (if \<not> truthy chapters then Inr []
      else if \<not> isArray chapters then Inr []
      else if length (elems chapters) = 0 then Inr []
      else mapE (parseChapter host) (elems chapters))"

section \<open>The canonical record\<close>

text \<open>
  What \<^verbatim>\<open>parseDocumentData\<close> reads besides its arguments: the extractor's
  \<^verbatim>\<open>storyId\<close>, \<^verbatim>\<open>window.location.href\<close>, \<^verbatim>\<open>new Date().toISOString()\<close>, the
  version of the extension's manifest (\<^verbatim>\<open>undefined\<close> when there is none), and the two
  host functions.
\<close>

record page =
  storyId :: "string option"
  href :: string
  now :: string
  manifestVersion :: jsval
  parseFloat :: "string \<Rightarrow> rat option"
  numberString :: "rat \<Rightarrow> string"

definition idValue :: "string option \<Rightarrow> jsval" where
  "idValue i = (case i of None \<Rightarrow> JNull | Some s \<Rightarrow> JStr s)"

text \<open>
  What \<^verbatim>\<open>cleanObject(value)\<close> leaves at the place of \<^verbatim>\<open>value\<close> when it is called on
  an object that is no array.
\<close>

definition cleanedInPlace :: "jsval \<Rightarrow> jsval" where
  "cleanedInPlace v = (case v of JObj kvs \<Rightarrow> JObj (cleanObject kvs) | _ \<Rightarrow> v)"

text \<open>
  The record shares two objects: \<^verbatim>\<open>transcriptionStatus\<close> is
  \<^verbatim>\<open>transcriptions[0]\<close> and \<^verbatim>\<open>transcriptionDetails\<close> is \<^verbatim>\<open>transcriptions[1]\<close>,
  the very elements of the array held as \<^verbatim>\<open>transcriptionMetadata\<close>. When one of them
  is a plain object, \<^verbatim>\<open>cleanObject\<close> prunes it in place under its own key, and the
  array shows the pruned object. \<open>sharedWithArray\<close> gives the array as it is seen at
  the end; everything else in the record is a tree.
\<close>

definition sharedWithArray :: "(string \<times> jsval) list \<Rightarrow> (string \<times> jsval) list" where
  "sharedWithArray info =
     map (\<lambda>(key, v).
            if key = ''transcriptionMetadata'' \<and> isArray v \<and> length (elems v) > 1
            then (key, JArr (map cleanedInPlace (take 2 (elems v)) @ drop 2 (elems v)))
            else (key, v)) info"

text \<open>The object literal of \<^verbatim>\<open>parseDocumentData\<close> (content.js 122-162), one
  definition for each of its groups.\<close>

definition videoProps :: "page \<Rightarrow> jsval \<Rightarrow> (string \<times> jsval) list" where
  "videoProps pg story =
     [(''id'', js_or (js_prop story ''id'') (idValue (storyId pg))),
      (''title'', js_or (js_prop story ''name'') JNull),
      (''description'', js_or (js_prop story ''description'') (JStr [])),
      (''url'', js_or (js_prop story ''url'') (JStr (href pg))),
      (''dimensions'', js_or (js_prop story ''dimensions'') JNull),
      (''views'', js_or (js_prop story ''views'') (JNum 0)),
      (''slug'', js_or (js_prop story ''slug'') JNull),
      (''channelIDs'', js_or (js_prop story ''channelIDs'') JNull)]"

definition timingProps :: "page \<Rightarrow> jsval \<Rightarrow> (string \<times> jsval) list" where
  "timingProps pg story =
     [(''duration'', formatDuration (parseFloat pg) (js_prop story ''duration'')),
      (''durationMs'', js_or (js_prop story ''duration'') JNull),
      (''createdAt'', js_or (js_prop story ''createdAt'') JNull),
      (''updatedAt'', js_or (js_prop story ''updatedAt'') JNull),
      (''lastSeen'', js_or (js_prop story ''lastSeen'') JNull)]"

definition metadataProps :: "page \<Rightarrow> (string \<times> jsval) list" where
  "metadataProps pg =
     [(''extractedAt'', JStr (now pg)),
      (''pageUrl'', JStr (href pg)),
      (''extractionMethod'', JStr ''api''),
      (''extensionVersion'', js_or (manifestVersion pg) (JStr ''unknown''))]"

definition extractedData ::
  "page \<Rightarrow> jsval \<Rightarrow> jsval list \<Rightarrow> (string \<times> jsval) list \<Rightarrow> (string \<times> jsval) list" where
  "extractedData pg story chapters transcriptionInfo =
     [(''video'', JObj (videoProps pg story)),
      (''timing'', JObj (timingProps pg story)),
      (''content'', JObj
        [(''chapters'', JArr chapters),
         (''transcription'', JObj transcriptionInfo)]),
      (''metadata'', JObj (metadataProps pg))]"

text \<open>
  \<^verbatim>\<open>parseDocumentData(data, transcriptionData)\<close> (content.js 102-185), in the order
  of the source: the transcription is parsed first, \<^verbatim>\<open>data.story\<close> throws on a
  \<^verbatim>\<open>data\<close> that is \<^verbatim>\<open>null\<close>, the chapters are parsed inside the literal, and the
  record is cleaned before it is returned.
\<close>

definition parseDocumentData :: "page \<Rightarrow> jsval \<Rightarrow> jsval \<Rightarrow> error + jsval" where
  "parseDocumentData pg data transcriptionData =
     (case parseTranscriptionData transcriptionData of
        Inl e \<Rightarrow> Inl e
      | Inr transcriptionInfo \<Rightarrow>
          (case js_get data ''story'' of
             Inl e \<Rightarrow> Inl e
           | Inr s \<Rightarrow>
               (let story = js_or s data
                in case parseChapters (numberString pg) (js_prop story ''chapters'') of
                     Inl e \<Rightarrow> Inl e
                   | Inr chapters \<Rightarrow>
                       Inr (JObj (cleanObject
                         (extractedData pg story chapters
                            (sharedWithArray transcriptionInfo)))))))"

section \<open>The structured-source path\<close>

text \<open>
  What one \<^verbatim>\<open>fetch\<close> can come to: the request fails, or a response arrives with its
  \<^verbatim>\<open>ok\<close> flag and a body that \<^verbatim>\<open>response.json()\<close> parses (\<open>Some\<close>) or rejects
  (\<open>None\<close>).
\<close>

datatype fetched = NetworkError | Responded bool "jsval option"

text \<open>\<^verbatim>\<open>fetchDocumentData\<close> (content.js 60-79) and \<^verbatim>\<open>fetchTranscriptionData\<close>
  (content.js 81-100): the parsed body of an \<^verbatim>\<open>ok\<close> response, \<^verbatim>\<open>null\<close> otherwise,
  the \<^verbatim>\<open>catch\<close> included.\<close>

fun fetchDocumentData :: "fetched \<Rightarrow> jsval" where
  "fetchDocumentData NetworkError = JNull"
| "fetchDocumentData (Responded ok body) =
     (if ok then (case body of Some data \<Rightarrow> data | None \<Rightarrow> JNull) else JNull)"

fun fetchTranscriptionData :: "fetched \<Rightarrow> jsval" where
  "fetchTranscriptionData NetworkError = JNull"
| "fetchTranscriptionData (Responded ok body) =
     (if ok then (case body of Some data \<Rightarrow> data | None \<Rightarrow> JNull) else JNull)"

text \<open>
  \<^verbatim>\<open>extractFromAPI\<close> (content.js 32-58), given the outcome of the two fetches. The
  transcription is fetched only after a truthy document has arrived; an exception of
  \<^verbatim>\<open>parseDocumentData\<close> is caught and the function returns \<^verbatim>\<open>null\<close>.
\<close>

definition extractFromAPI :: "page \<Rightarrow> fetched \<Rightarrow> fetched \<Rightarrow> jsval" where
  "extractFromAPI pg document transcription =
     (if \<not> truthy (idValue (storyId pg)) then JNull
      else (let documentData = fetchDocumentData document
            in if truthy documentData
               then (case parseDocumentData pg documentData
                            (fetchTranscriptionData transcription) of
                       Inl e \<Rightarrow> JNull
                     | Inr result \<Rightarrow> result)
               else JNull))"

section \<open>The identifier resolver\<close>

text \<open>
  The four regular expressions of \<^verbatim>\<open>extractStoryId\<close> (content.js 13-18) are made of
  literal text and of one capturing group \<^verbatim>\<open>([a-zA-Z0-9]+)\<close>.
\<close>

datatype atom = Lit string | Group

definition alnum :: "char \<Rightarrow> bool" where
  "alnum c = (c \<in> set ''abcdefghijklmnopqrstuvwxyzABCDEFGHIJKLMNOPQRSTUVWXYZ0123456789'')"

text \<open>The greedy quantifier: the longest run first, then one character less, down to
  one character.\<close>

fun longest_first :: "(nat \<Rightarrow> 'a option) \<Rightarrow> nat \<Rightarrow> 'a option" where
  "longest_first f 0 = None"
| "longest_first f (Suc n) =
     (case f (Suc n) of Some r \<Rightarrow> Some r | None \<Rightarrow> longest_first f n)"

text \<open>A match that starts at the head of the string; the result is the capture.\<close>

fun match_here :: "atom list \<Rightarrow> string \<Rightarrow> string \<Rightarrow> string option" where
  "match_here [] s capture = Some capture"
| "match_here (Lit l # rest) s capture =
     (if take (length l) s = l then match_here rest (drop (length l) s) capture else None)"
| "match_here (Group # rest) s capture =
     longest_first (\<lambda>n. match_here rest (drop n s) (take n s))
       (length (takeWhile alnum s))"

text \<open>\<^verbatim>\<open>url.match(pattern)\<close> without the global flag: the leftmost start that
  matches; \<open>Some\<close> carries \<^verbatim>\<open>match[1]\<close>.\<close>

fun search :: "atom list \<Rightarrow> string \<Rightarrow> string option" where
  "search p [] = match_here p [] []"
| "search p (c # s) =
     (case match_here p (c # s) [] of Some capture \<Rightarrow> Some capture | None \<Rightarrow> search p s)"

definition patterns :: "atom list list" where
  "patterns =
     [[Lit ''/video/'', Group, Lit ''/view''],
      [Lit ''/video/'', Group],
      [Lit ''/stories/'', Group],
      [Lit ''/watch/'', Group]]"

text \<open>The loop \<^verbatim>\<open>for (const pattern of patterns)\<close>.\<close>

fun first_capture :: "atom list list \<Rightarrow> string \<Rightarrow> string option" where
  "first_capture [] url = None"
| "first_capture (p # ps) url =
     (case search p url of Some capture \<Rightarrow> Some capture | None \<Rightarrow> first_capture ps url)"

text \<open>\<^verbatim>\<open>extractStoryId()\<close> (content.js 10-30) on \<^verbatim>\<open>window.location.href\<close>.\<close>

definition extractStoryId :: "string \<Rightarrow> string option" where
  "extractStoryId url = first_capture patterns url"

section \<open>The webhook payload\<close>

text \<open>
  A value inside a template literal. An object prints as \<^verbatim>\<open>[object Object]\<close> (one
  that carries a \<^verbatim>\<open>toString\<close> or \<^verbatim>\<open>valueOf\<close> property of its own is outside the
  model), an array as its elements joined by commas, \<^verbatim>\<open>null\<close> and \<^verbatim>\<open>undefined\<close>
  elements as nothing.
\<close>

fun js_toString :: "(rat \<Rightarrow> string) \<Rightarrow> jsval \<Rightarrow> string" where
  "js_toString host JUndefined = ''undefined''"
| "js_toString host JNull = ''null''"
| "js_toString host (JBool b) = (if b then ''true'' else ''false'')"
| "js_toString host (JNum x) = number_toString host x"
| "js_toString host JNaN = ''NaN''"
| "js_toString host (JStr s) = s"
| "js_toString host (JArr xs) =
     join '','' (map (\<lambda>x. if x = JNull \<or> x = JUndefined then [] else js_toString host x) xs)"
| "js_toString host (JObj kvs) = ''[object Object]''"

text \<open>The callback of \<^verbatim>\<open>formatChaptersAsMarkdown\<close> (sidebar-webhook.js 1034-1056):
  one line for one chapter.\<close>

definition chapterLine :: "(rat \<Rightarrow> string) \<Rightarrow> jsval \<Rightarrow> error + string" where
  "chapterLine host chapter =
     (case js_get chapter ''timestampFormatted'' of
        Inl e \<Rightarrow> Inl e
      | Inr formatted \<Rightarrow>
          (let timestamp =
                 (if truthy formatted then js_toString host formatted
                  else if js_prop chapter ''timestamp'' \<noteq> JUndefined
                  then formatTimestampWithLeadingZeros host (js_prop chapter ''timestamp'')
                  else ''00:00'');
               title = js_or (js_prop chapter ''title'') (JStr ''Untitled'');
               description = js_or (js_prop chapter ''description'') (JStr [])
           in if truthy description
              then Inr (''- '' @ timestamp @ '' '' @ js_toString host title
                        @ '' - '' @ js_toString host description)
              else Inr (''- '' @ timestamp @ '' '' @ js_toString host title)))"

text \<open>\<^verbatim>\<open>formatChaptersAsMarkdown(chapters)\<close> (sidebar-webhook.js 1028-1058).\<close>

definition formatChaptersAsMarkdown :: "(rat \<Rightarrow> string) \<Rightarrow> jsval \<Rightarrow> error + string" where
  "formatChaptersAsMarkdown host chapters =
     (if \<not> truthy chapters \<or> \<not> isArray chapters \<or> length (elems chapters) = 0 then Inr []
      else (case mapE (chapterLine host) (elems chapters) of
              Inl e \<Rightarrow> Inl e
            | Inr lines \<Rightarrow> Inr (join [CHR 0x0A] lines)))"





section \<open>Pruning in place: the store\<close>

text \<open>
  \<^verbatim>\<open>cleanObject\<close> deletes properties of the object it is given and of the objects
  below it; it builds nothing new. Where one object is held in two places, what is
  deleted through one place is gone in the other. The store makes that visible:
  arrays and objects live in cells, a value refers to a cell by its address, and
  \<^verbatim>\<open>delete obj[key]\<close> rewrites the cell of \<^verbatim>\<open>obj\<close>.
\<close>

datatype sval =
    SUndefined | SNull | SBool bool | SNum rat | SNaN | SStr string | SRef nat

datatype cell = ArrayCell "sval list" | ObjectCell "(string \<times> sval) list"

type_synonym store = "nat \<Rightarrow> cell option"

text \<open>\<^verbatim>\<open>delete obj[key]\<close>\<close>

definition removeKey :: "string \<Rightarrow> (string \<times> sval) list \<Rightarrow> (string \<times> sval) list" where
  "removeKey key props = filter (\<lambda>(k, v). k \<noteq> key) props"

definition deleteKey :: "store \<Rightarrow> nat \<Rightarrow> string \<Rightarrow> store" where
  "deleteKey s obj key =
     (case s obj of
        Some (ObjectCell props) \<Rightarrow> s(obj \<mapsto> ObjectCell (removeKey key props))
      | _ \<Rightarrow> s)"

text \<open>
  The body of \<^verbatim>\<open>cleanObject(obj)\<close> (content.js 166-177) from one key of
  \<^verbatim>\<open>Object.keys(obj)\<close> on. The list of keys is taken once, before the loop; the value
  is read when its key is reached; a value that refers to an object cell is cleaned by
  the recursive call, and its key is deleted when the cell is empty afterwards. Arrays
  are passed over. \<open>fuel\<close> bounds the depth of the recursion, which has no end on a
  store with a cycle: \<open>None\<close> is the call that does not return.
\<close>

fun cleanKeys :: "nat \<Rightarrow> nat \<Rightarrow> string list \<Rightarrow> store \<Rightarrow> store option" where
  "cleanKeys fuel obj [] s = Some s"
| "cleanKeys fuel obj (key # keys) s =
     (case s obj of
        Some (ObjectCell props) \<Rightarrow>
          (case map_of props key of
             None \<Rightarrow> cleanKeys fuel obj keys s
           | Some v \<Rightarrow>
               if v = SNull \<or> v = SUndefined then cleanKeys fuel obj keys (deleteKey s obj key)
               else (case v of
                       SRef r \<Rightarrow>
                         (case s r of
                            Some (ObjectCell inner) \<Rightarrow>
                              (case fuel of
                                 0 \<Rightarrow> None
                               | Suc n \<Rightarrow>
                                   (case cleanKeys n r (map fst inner) s of
                                      None \<Rightarrow> None
                                    | Some s' \<Rightarrow>
                                        (case s' r of
                                           Some (ObjectCell inner') \<Rightarrow>
                                             if inner' = []
                                             then cleanKeys fuel obj keys (deleteKey s' obj key)
                                             else cleanKeys fuel obj keys s'
                                         | _ \<Rightarrow> None)))
                          | _ \<Rightarrow> cleanKeys fuel obj keys s)
                     | _ \<Rightarrow> cleanKeys fuel obj keys s))
      | _ \<Rightarrow> None)"

text \<open>\<^verbatim>\<open>cleanObject(obj)\<close> on the store.\<close>

definition cleanObjectS :: "nat \<Rightarrow> nat \<Rightarrow> store \<Rightarrow> store option" where
  "cleanObjectS fuel obj s =
     (case s obj of
        Some (ObjectCell props) \<Rightarrow> cleanKeys fuel obj (map fst props) s
      | _ \<Rightarrow> None)"

text \<open>The value that a reference stands for, as a tree, down to a depth.\<close>

fun readback :: "nat \<Rightarrow> store \<Rightarrow> sval \<Rightarrow> jsval" where
  "readback fuel s SUndefined = JUndefined"
| "readback fuel s SNull = JNull"
| "readback fuel s (SBool b) = JBool b"
| "readback fuel s (SNum x) = JNum x"
| "readback fuel s SNaN = JNaN"
| "readback fuel s (SStr t) = JStr t"
| "readback 0 s (SRef a) = JUndefined"
| "readback (Suc n) s (SRef a) =
     (case s a of
        Some (ArrayCell xs) \<Rightarrow> JArr (map (readback n s) xs)
      | Some (ObjectCell props) \<Rightarrow> JObj (map (\<lambda>(k, v). (k, readback n s v)) props)
      | None \<Rightarrow> JUndefined)"

text \<open>
  The transcription object that \<^verbatim>\<open>parseTranscriptionData\<close> builds for the payload
  \<^verbatim>\<open>{transcriptions: [{a: null}, "x"]}\<close>: cell 0 is the result, cell 1 the array
  \<^verbatim>\<open>transcriptions\<close>, and cell 2 its first element, which the result holds a second
  time as \<^verbatim>\<open>transcriptionStatus\<close>.
\<close>

definition sharedStore :: store where
  "sharedStore =
     [0 \<mapsto> ObjectCell [(''transcriptionMetadata'', SRef 1), (''transcriptionStatus'', SRef 2),
                      (''transcriptionDetails'', SStr ''x'')],
      1 \<mapsto> ArrayCell [SRef 2, SStr ''x''],
      2 \<mapsto> ObjectCell [(''a'', SNull)]]"

text \<open>
  A record without sharing, \<^verbatim>\<open>{a: null, b: {c: null}, d: 0, e: "", f: [{g: null}]}\<close>:
  cell 0 is the record, cell 1 the object \<^verbatim>\<open>b\<close>, cell 2 the array \<^verbatim>\<open>f\<close> and cell 3
  its element.
\<close>

definition treeStore :: store where
  "treeStore =
     [0 \<mapsto> ObjectCell [(''a'', SNull), (''b'', SRef 1), (''d'', SNum 0), (''e'', SStr []),
                      (''f'', SRef 2)],
      1 \<mapsto> ObjectCell [(''c'', SNull)],
      2 \<mapsto> ArrayCell [SRef 3],
      3 \<mapsto> ObjectCell [(''g'', SNull)]]"

text \<open>The same payload for the record model.\<close>

definition sharedPayload :: jsval where
  "sharedPayload = JObj [(''transcriptions'', JArr [JObj [(''a'', JNull)], JStr ''x''])]"

text \<open>
  What a run of \<^verbatim>\<open>cleanObject\<close> keeps of a store: every array cell as it is; every
  object cell as an object whose properties are among those it had; every key bound to
  an array; and no new object cells.
\<close>

definition kept :: "store \<Rightarrow> store \<Rightarrow> bool" where
  "kept s s' =
     ((\<forall>a xs. s a = Some (ArrayCell xs) \<longrightarrow> s' a = Some (ArrayCell xs))
      \<and> (\<forall>obj props. s obj = Some (ObjectCell props) \<longrightarrow>
            (\<exists>props'. s' obj = Some (ObjectCell props')
               \<and> (\<forall>k v. map_of props' k = Some v \<longrightarrow> map_of props k = Some v)))
      \<and> (\<forall>obj props k a xs.
            s obj = Some (ObjectCell props) \<and> map_of props k = Some (SRef a)
              \<and> s a = Some (ArrayCell xs) \<longrightarrow>
            (\<exists>props'. s' obj = Some (ObjectCell props') \<and> map_of props' k = Some (SRef a)))
      \<and> (\<forall>obj props'. s' obj = Some (ObjectCell props') \<longrightarrow>
            (\<exists>props. s obj = Some (ObjectCell props))))"

text \<open>A store without cycles through objects: a rank that falls from an object to
  every object among its properties.\<close>

definition ranked :: "(nat \<Rightarrow> nat) \<Rightarrow> store \<Rightarrow> bool" where
  "ranked rank s =
     (\<forall>obj props k r inner.
        s obj = Some (ObjectCell props) \<and> map_of props k = Some (SRef r)
          \<and> s r = Some (ObjectCell inner) \<longrightarrow> rank r < rank obj)"

section \<open>A host for the examples\<close>

text \<open>
  The theorems below hold for every \<^verbatim>\<open>parseFloat\<close> and every rendering of
  non-integers. The examples run on one of each: \<open>decimalParseFloat\<close> reads
  leading white space, a sign, decimal digits with an optional fraction and an optional
  exponent, and stops at the first character that fits no more, as \<^verbatim>\<open>parseFloat\<close>
  does on a decimal literal; \<open>decimalNumberString\<close> writes a non-integer with the first
  seventeen digits of its fraction.
\<close>

definition digit :: "char \<Rightarrow> bool" where
  "digit c = (c \<in> set ''0123456789'')"

definition digitValue :: "char \<Rightarrow> int" where
  "digitValue c = int (length (takeWhile (\<lambda>d. d \<noteq> c) ''0123456789''))"

definition decimalValue :: "string \<Rightarrow> int" where
  "decimalValue ds = foldl (\<lambda>n c. 10 * n + digitValue c) 0 ds"

definition isNegative :: "string \<Rightarrow> bool" where
  "isNegative t = (take 1 t = ''-'')"

definition stripSign :: "string \<Rightarrow> string" where
  "stripSign t = (if take 1 t = ''-'' \<or> take 1 t = ''+'' then drop 1 t else t)"

definition fractionOf :: "string \<Rightarrow> string" where
  "fractionOf v = (if take 1 v = ''.'' then takeWhile digit (drop 1 v) else [])"

definition afterFraction :: "string \<Rightarrow> string" where
  "afterFraction v = (if take 1 v = ''.'' then dropWhile digit (drop 1 v) else v)"

definition exponentOf :: "string \<Rightarrow> int" where
  "exponentOf w =
     (if take 1 w = ''e'' \<or> take 1 w = ''E''
      then (if isNegative (drop 1 w)
            then - decimalValue (takeWhile digit (stripSign (drop 1 w)))
            else decimalValue (takeWhile digit (stripSign (drop 1 w))))
      else 0)"

definition scaleBy :: "rat \<Rightarrow> int \<Rightarrow> rat" where
  "scaleBy m e = (if e < 0 then m / 10 ^ nat (- e) else m * 10 ^ nat e)"

definition unsignedDecimal :: "string \<Rightarrow> rat option" where
  "unsignedDecimal u =
     (if takeWhile digit u = [] \<and> fractionOf (dropWhile digit u) = [] then None
      else Some (scaleBy
             (of_int (decimalValue (takeWhile digit u @ fractionOf (dropWhile digit u)))
              / 10 ^ length (fractionOf (dropWhile digit u)))
             (exponentOf (afterFraction (dropWhile digit u)))))"

definition decimalParseFloat :: "string \<Rightarrow> rat option" where
  "decimalParseFloat s =
     (case unsignedDecimal (stripSign (dropWhile is_space s)) of
        None \<Rightarrow> None
      | Some x \<Rightarrow> Some (if isNegative (dropWhile is_space s) then - x else x))"

fun fractionDigits :: "nat \<Rightarrow> rat \<Rightarrow> string" where
  "fractionDigits 0 r = []"
| "fractionDigits (Suc n) r =
     (if r = 0 then []
      else (''0123456789'' ! nat \<lfloor>10 * r\<rfloor>)
           # fractionDigits n (10 * r - of_int \<lfloor>10 * r\<rfloor>))"

definition decimalNumberString :: "rat \<Rightarrow> string" where
  "decimalNumberString x =
     (if x < 0 then ''-'' else []) @ digits_of (nat \<lfloor>\<bar>x\<bar>\<rfloor>) @ ''.''
     @ fractionDigits 17 (\<bar>x\<bar> - of_int \<lfloor>\<bar>x\<bar>\<rfloor>)"

definition demoPage :: page where
  "demoPage =
     \<lparr> storyId = Some ''abc'',
       href = ''https://www.tella.tv/video/abc/view'',
       now = ''2025-01-01T00:00:00.000Z'',
       manifestVersion = JStr ''1.0.0'',
       parseFloat = decimalParseFloat,
       numberString = decimalNumberString \<rparr>"

section \<open>The specification's own words\<close>

text \<open>
  The duration rule as the specification writes it for a number: above 10000 the value
  is in milliseconds and becomes \<open>\<lfloor>x / 1000\<rfloor>\<close>; in \<open>(0, 10000]\<close> it becomes
  \<open>\<lfloor>x\<rfloor>\<close>; at or below 0 it is absent.
\<close>

definition durationSeconds :: "rat \<Rightarrow> jsval" where
  "durationSeconds x =
     (if x > 10000 then JNum (of_int \<lfloor>x / 1000\<rfloor>)
      else if 0 < x then JNum (of_int \<lfloor>x\<rfloor>)
      else JNull)"

text \<open>The whole rule as the specification writes it: the number rule on a number,
  absent on every value that is no number.\<close>

definition spec_formatDuration :: "jsval \<Rightarrow> jsval" where
  "spec_formatDuration v = (case v of JNum x \<Rightarrow> durationSeconds x | _ \<Rightarrow> JNull)"

text \<open>
  A path shape \<^verbatim>\<open>marker{id}suffix\<close> read at the head of a string: the marker, then
  the longest run of letters and digits, which is the identifier and is not empty, then
  the suffix.
\<close>

definition idAfter :: "string \<Rightarrow> string \<Rightarrow> string \<Rightarrow> string option" where
  "idAfter marker suffix s =
     (let rest = drop (length marker) s; ident = takeWhile alnum rest
      in if take (length marker) s = marker \<and> ident \<noteq> []
            \<and> take (length suffix) (drop (length ident) rest) = suffix
         then Some ident else None)"

text \<open>The first place of a string, from the left, where a reader succeeds.\<close>

fun leftmost :: "(string \<Rightarrow> 'a option) \<Rightarrow> string \<Rightarrow> 'a option" where
  "leftmost f [] = f []"
| "leftmost f (c # s) = (case f (c # s) of Some r \<Rightarrow> Some r | None \<Rightarrow> leftmost f s)"







text \<open>The three words of the specification's example.\<close>

definition helloWords :: "jsval list" where
  "helloWords =
     [JObj [(''text'', JStr ''Hello''), (''hidden'', JBool False)],
      JObj [(''text'', JStr ''secret''), (''hidden'', JBool True)],
      JObj [(''text'', JStr ''world''), (''hidden'', JBool False)]]"



text \<open>The document of the specification's end-to-end scenario, and the record the
  source builds from it on \<open>demoPage\<close> when there is no transcription.\<close>

definition endToEndDocument :: jsval where
  "endToEndDocument =
     JObj [(''story'', JObj
       [(''id'', JStr ''abc''), (''name'', JStr ''Demo''), (''duration'', JNum 125000),
        (''views'', JNum 42),
        (''chapters'', JArr [JObj [(''timestamp'', JNum 10), (''title'', JStr ''Intro'')]])])]"

definition endToEndRecord :: jsval where
  "endToEndRecord =
     JObj
      [(''video'', JObj
         [(''id'', JStr ''abc''), (''title'', JStr ''Demo''), (''description'', JStr []),
          (''url'', JStr ''https://www.tella.tv/video/abc/view''), (''views'', JNum 42)]),
       (''timing'', JObj [(''duration'', JNum 125), (''durationMs'', JNum 125000)]),
       (''content'', JObj
         [(''chapters'', JArr
            [JObj [(''id'', JNull), (''timestamp'', JNum 10),
                   (''timestampFormatted'', JStr ''0:10''), (''title'', JStr ''Intro''),
                   (''description'', JStr [])]])]),
       (''metadata'', JObj
         [(''extractedAt'', JStr ''2025-01-01T00:00:00.000Z''),
          (''pageUrl'', JStr ''https://www.tella.tv/video/abc/view''),
          (''extractionMethod'', JStr ''api''),
          (''extensionVersion'', JStr ''1.0.0'')])]"

text \<open>
  The word array as the specification locates it: the top-level \<^verbatim>\<open>words\<close> when
  that is an array; otherwise \<^verbatim>\<open>transcriptions[1][0].words\<close> when that is an array,
  a missing step on the way counting as absent; otherwise none.
\<close>

definition spec_nestedWords :: "jsval \<Rightarrow> jsval" where
  "spec_nestedWords td =
     (case js_prop td ''transcriptions'' of
        JArr t \<Rightarrow>
          (case js_index t 1 of
             JArr d \<Rightarrow> js_prop (js_index d 0) ''words''
           | _ \<Rightarrow> JUndefined)
      | _ \<Rightarrow> JUndefined)"

definition spec_words :: "jsval \<Rightarrow> jsval list option" where
  "spec_words td =
     (case js_prop td ''words'' of
        JArr ws \<Rightarrow> Some ws
      | _ \<Rightarrow> (case spec_nestedWords td of JArr ws \<Rightarrow> Some ws | _ \<Rightarrow> None))"

text \<open>A result that carries none of the four transcript fields.\<close>

definition noTranscriptFields :: "(string \<times> jsval) list \<Rightarrow> bool" where
  "noTranscriptFields r =
     (map_of r ''transcriptionWords'' = None \<and> map_of r ''transcript'' = None
      \<and> map_of r ''transcriptWordCount'' = None \<and> map_of r ''transcriptDurationMs'' = None)"

text \<open>
  The payloads on which the nested location is consulted and its first detail,
  \<^verbatim>\<open>transcriptions[1][0]\<close>, is \<^verbatim>\<open>null\<close> or \<^verbatim>\<open>undefined\<close>.
\<close>

definition firstDetailMissing :: "jsval \<Rightarrow> bool" where
  "firstDetailMissing td =
     (\<not> isArray (js_prop td ''words'')
      \<and> (case js_prop td ''transcriptions'' of
            JArr t \<Rightarrow>
              (case js_index t 1 of
                 JArr d \<Rightarrow> d \<noteq> [] \<and> (js_index d 0 = JNull \<or> js_index d 0 = JUndefined)
               | _ \<Rightarrow> False)
          | _ \<Rightarrow> False))"

definition nullDetailPayload :: jsval where
  "nullDetailPayload = JObj [(''transcriptions'', JArr [JStr ''completed'', JArr [JNull]])]"

text \<open>
  A fetch that failed, in the specification's sense: a network error, a status outside
  2xx, or a body that is no JSON.
\<close>

fun fetchFailed :: "fetched \<Rightarrow> bool" where
  "fetchFailed NetworkError = True"
| "fetchFailed (Responded ok body) = (\<not> ok \<or> body = None)"

definition nullChapterDocument :: jsval where
  "nullChapterDocument =
     JObj [(''story'', JObj
       [(''id'', JStr ''abc''), (''name'', JStr ''Demo''), (''chapters'', JArr [JNull])])]"









section \<open>Duration normalisation: the theorems\<close>

lemma totalSeconds_Some: "totalSeconds (Some x) = durationSeconds x"
  by (simp add: totalSeconds_def durationSeconds_def)

lemma formatDuration_number: "formatDuration pf (JNum x) = durationSeconds x"
  by (simp add: formatDuration.simps totalSeconds_Some)

lemma formatDuration_string:
  "formatDuration pf (JStr s) = (case pf s of Some x \<Rightarrow> durationSeconds x | None \<Rightarrow> JNull)"
proof (cases "pf s")
  case None
  then show ?thesis by (simp add: formatDuration.simps totalSeconds_def)
next
  case (Some x)
  then show ?thesis by (simp add: formatDuration.simps totalSeconds_Some)
qed

lemma formatDuration_object:
  "formatDuration pf (JObj kvs) =
     (if truthy (js_prop (JObj kvs) ''duration'')
      then formatDuration pf (js_prop (JObj kvs) ''duration'') else JNull)"
  by (subst formatDuration.simps) (simp add: totalSeconds_def)

lemma formatDuration_other:
  "formatDuration pf JUndefined = JNull" "formatDuration pf JNull = JNull"
  "formatDuration pf JNaN = JNull" "formatDuration pf (JBool b) = JNull"
  "formatDuration pf (JArr xs) = JNull"
  by (simp_all add: formatDuration.simps totalSeconds_def)

lemma durationSeconds_examples:
  "durationSeconds 45 = JNum 45" "durationSeconds 45000 = JNum 45"
  "durationSeconds 9999 = JNum 9999" "durationSeconds 10001 = JNum 10"
  "durationSeconds 0 = JNull"
  by (simp_all add: durationSeconds_def floor_eq_iff)

text \<open>
  C1, as stated, fails: an object is no number, and \<^verbatim>\<open>formatDuration({duration: 45})\<close>
  is 45, not \<^verbatim>\<open>null\<close>. The third branch of the source,
  \<^verbatim>\<open>else if (input && input.duration) return this.formatDuration(input.duration)\<close>,
  normalises the \<^verbatim>\<open>duration\<close> property of such a value.
\<close>

theorem formatDuration_object_counterexample:
  "formatDuration decimalParseFloat (JObj [(''duration'', JNum 45)]) = JNum 45
   \<and> spec_formatDuration (JObj [(''duration'', JNum 45)]) = JNull"
  by (simp add: formatDuration_object formatDuration_number durationSeconds_def
        spec_formatDuration_def)

text \<open>
  C1, amended. For every input of \<^verbatim>\<open>formatDuration\<close>: a number above 10000 becomes
  \<open>\<lfloor>x / 1000\<rfloor>\<close>, a number in \<open>(0, 10000]\<close> becomes \<open>\<lfloor>x\<rfloor>\<close>, a number at or below 0
  becomes \<^verbatim>\<open>null\<close>, never zero; a string that \<^verbatim>\<open>parseFloat\<close> reads is normalised as
  the number read and any other string becomes \<^verbatim>\<open>null\<close>; an object with a truthy
  \<^verbatim>\<open>duration\<close> property is normalised as that property and any other object becomes
  \<^verbatim>\<open>null\<close>; \<^verbatim>\<open>undefined\<close>, \<^verbatim>\<open>null\<close>, \<^verbatim>\<open>NaN\<close>, booleans and arrays become \<^verbatim>\<open>null\<close>.
  In particular 45 gives 45, 45000 gives 45, 9999 gives 9999, 10001 gives 10, and 0 or a
  negative number gives \<^verbatim>\<open>null\<close>.
\<close>

theorem formatDuration_normalises:
  "formatDuration pf (JNum x) = durationSeconds x
   \<and> formatDuration pf (JStr s)
       = (case pf s of Some y \<Rightarrow> durationSeconds y | None \<Rightarrow> JNull)
   \<and> formatDuration pf (JObj kvs)
       = (if truthy (js_prop (JObj kvs) ''duration'')
          then formatDuration pf (js_prop (JObj kvs) ''duration'') else JNull)
   \<and> formatDuration pf JUndefined = JNull
   \<and> formatDuration pf JNull = JNull
   \<and> formatDuration pf JNaN = JNull
   \<and> formatDuration pf (JBool b) = JNull
   \<and> formatDuration pf (JArr xs) = JNull
   \<and> (z \<le> 0 \<longrightarrow> formatDuration pf (JNum z) = JNull)
   \<and> formatDuration pf (JNum 45) = JNum 45
   \<and> formatDuration pf (JNum 45000) = JNum 45
   \<and> formatDuration pf (JNum 9999) = JNum 9999
   \<and> formatDuration pf (JNum 10001) = JNum 10
   \<and> formatDuration pf (JNum 0) = JNull"
  using formatDuration_string [of pf s] formatDuration_object [of pf kvs]
  by (simp add: formatDuration_number formatDuration_other durationSeconds_examples)
     (simp add: durationSeconds_def)

theorem formatDuration_normalises_witness:
  "formatDuration decimalParseFloat (JNum (- 3)) = JNull
   \<and> formatDuration decimalParseFloat (JStr ''45000'') = JNum 45
   \<and> formatDuration decimalParseFloat (JStr ''soon'') = JNull
   \<and> formatDuration decimalParseFloat (JObj [(''duration'', JNum 125000)]) = JNum 125
   \<and> formatDuration decimalParseFloat (JObj [(''length'', JNum 125000)]) = JNull"
proof -
  have p1: "decimalParseFloat ''45000'' = Some 45000" by code_simp
  have p2: "decimalParseFloat ''soon'' = None" by code_simp
  have d1: "durationSeconds 45000 = JNum 45" "durationSeconds 125000 = JNum 125"
    by (simp_all add: durationSeconds_def floor_eq_iff)
  note a = formatDuration_normalises [of decimalParseFloat 125000 "''45000''"
      "[(''duration'', JNum 125000)]" True "[]" "- 3"]
  note b = formatDuration_normalises [of decimalParseFloat 0 "''soon''"
      "[(''length'', JNum 125000)]" True "[]" 0]
  from a b show ?thesis by (simp add: p1 p2 d1)
qed

section \<open>Timestamps: the theorems\<close>

text \<open>
  C9. 125 seconds is \<^verbatim>\<open>"2:05"\<close> through \<^verbatim>\<open>formatTimestamp\<close> and \<^verbatim>\<open>"02:05"\<close>
  through \<^verbatim>\<open>formatTimestampWithLeadingZeros\<close>, whatever the host's rendering of
  non-integers.
\<close>

theorem formatTimestamp_125:
  "formatTimestamp host (JNum 125) = ''2:05''
   \<and> formatTimestampWithLeadingZeros host (JNum 125) = ''02:05''"
  by code_simp

section \<open>The identifier resolver: the theorems\<close>

lemma longest_first_none:
  "(\<And>m. 0 < m \<Longrightarrow> m \<le> n \<Longrightarrow> f m = None) \<Longrightarrow> longest_first f n = None"
  by (induction n) simp_all

lemma longest_first_top:
  assumes "\<And>m. 0 < m \<Longrightarrow> m < n \<Longrightarrow> f m = None"
  shows "longest_first f n = (if n = 0 then None else f n)"
proof (cases n)
  case 0
  then show ?thesis by simp
next
  case (Suc k)
  have "longest_first f k = None"
    using assms Suc by (intro longest_first_none) simp
  with Suc show ?thesis by (simp split: option.splits)
qed

lemma take_run: "take (length (takeWhile P xs)) xs = takeWhile P xs"
  by (induction xs) simp_all

lemma run_member:
  assumes "n < length (takeWhile P xs)"
  shows "\<exists>ys. drop n xs = (xs ! n) # ys \<and> P (xs ! n)"
proof -
  have len: "n < length xs"
    using assms length_takeWhile_le [of P xs] by simp
  have "takeWhile P xs ! n \<in> set (takeWhile P xs)"
    using assms by simp
  then have "P (takeWhile P xs ! n)" by (rule set_takeWhileD [THEN conjunct2])
  moreover have "takeWhile P xs ! n = xs ! n"
    using assms by (rule takeWhile_nth)
  ultimately show ?thesis
    using len by (auto simp: Cons_nth_drop_Suc [symmetric])
qed

text \<open>With nothing after the group, the greedy run is the capture.\<close>

lemma match_marker_group: "match_here [Lit m, Group] s c0 = idAfter m [] s"
proof -
  have "longest_first (\<lambda>n. Some (take n r)) k = (if k = 0 then None else Some (take k r))"
    for r :: string and k
    by (cases k) simp_all
  then show ?thesis
    by (simp add: idAfter_def Let_def take_run)
qed

text \<open>
  With a suffix that starts with a character outside the class, giving back characters
  of the run never helps: a shorter run is followed by a letter or a digit.
\<close>

lemma match_marker_group_suffix:
  assumes "sfx \<noteq> []" and "\<not> alnum (hd sfx)"
  shows "match_here [Lit m, Group, Lit sfx] s c0 = idAfter m sfx s"
proof -
  define r where "r = drop (length m) s"
  define f where
    "f = (\<lambda>n. if take (length sfx) (drop n r) = sfx then Some (take n r) else None)"
  have none: "f n = None" if pos: "0 < n" and lt: "n < length (takeWhile alnum r)" for n
  proof -
    obtain ys where d: "drop n r = (r ! n) # ys" and a: "alnum (r ! n)"
      using run_member [OF lt] by blast
    obtain c cs where sfx: "sfx = c # cs" using assms(1) by (cases sfx) auto
    have "take (length sfx) (drop n r) \<noteq> sfx"
      using d a assms(2) sfx by auto
    then show ?thesis by (simp add: f_def)
  qed
  have top: "longest_first f (length (takeWhile alnum r))
        = (if length (takeWhile alnum r) = 0 then None else f (length (takeWhile alnum r)))"
    by (rule longest_first_top) (rule none)
  have s1: "match_here [Lit m, Group, Lit sfx] s c0
        = (if take (length m) s = m then match_here [Group, Lit sfx] r c0 else None)"
    by (simp add: r_def)
  have s2: "match_here [Group, Lit sfx] r c0
        = longest_first (\<lambda>n. match_here [Lit sfx] (drop n r) (take n r))
            (length (takeWhile alnum r))"
    by simp
  have s3: "(\<lambda>n. match_here [Lit sfx] (drop n r) (take n r)) = f"
    by (simp add: f_def fun_eq_iff)
  have s4: "f (length (takeWhile alnum r))
        = (if take (length sfx) (drop (length (takeWhile alnum r)) r) = sfx
           then Some (takeWhile alnum r) else None)"
    by (simp add: f_def take_run)
  have "idAfter m sfx s
        = (if take (length m) s = m \<and> takeWhile alnum r \<noteq> []
              \<and> take (length sfx) (drop (length (takeWhile alnum r)) r) = sfx
           then Some (takeWhile alnum r) else None)"
    unfolding idAfter_def Let_def r_def by (rule refl)
  then show ?thesis
    unfolding s1 s2 s3 top s4 by simp
qed

lemma search_leftmost: "search p s = leftmost (\<lambda>t. match_here p t []) s"
  by (induction s) (simp_all split: option.splits)

lemma leftmost_ext: "(\<And>t. f t = g t) \<Longrightarrow> leftmost f s = leftmost g s"
  by (induction s) (simp_all split: option.splits)

lemma slash_not_alnum: "\<not> alnum (CHR ''/'')"
  by (simp add: alnum_def)

text \<open>
  C7. For every URL, \<^verbatim>\<open>extractStoryId\<close> returns the identifier of the leftmost
  \<^verbatim>\<open>/video/{id}/view\<close> if there is one, else that of the leftmost \<^verbatim>\<open>/video/{id}\<close>,
  else that of the leftmost \<^verbatim>\<open>/stories/{id}\<close>, else that of the leftmost
  \<^verbatim>\<open>/watch/{id}\<close>, and \<^verbatim>\<open>null\<close> exactly when the URL has none of the four shapes.
  The resolver is a function of the URL alone: the model has no state for it to read
  or to change.
\<close>

theorem extractStoryId_first_shape:
  "extractStoryId url =
     (case leftmost (idAfter ''/video/'' ''/view'') url of
        Some i \<Rightarrow> Some i
      | None \<Rightarrow>
          (case leftmost (idAfter ''/video/'' []) url of
             Some i \<Rightarrow> Some i
           | None \<Rightarrow>
               (case leftmost (idAfter ''/stories/'' []) url of
                  Some i \<Rightarrow> Some i
                | None \<Rightarrow> leftmost (idAfter ''/watch/'' []) url)))
   \<and> ((extractStoryId url = None) =
        (leftmost (idAfter ''/video/'' ''/view'') url = None
         \<and> leftmost (idAfter ''/video/'' []) url = None
         \<and> leftmost (idAfter ''/stories/'' []) url = None
         \<and> leftmost (idAfter ''/watch/'' []) url = None))"
proof -
  have a: "search [Lit m, Group] url = leftmost (idAfter m []) url" for m
    unfolding search_leftmost by (rule leftmost_ext) (rule match_marker_group)
  have b: "search [Lit m, Group, Lit ''/view''] url = leftmost (idAfter m ''/view'') url" for m
    unfolding search_leftmost
    by (rule leftmost_ext) (rule match_marker_group_suffix, simp_all add: slash_not_alnum)
  show ?thesis
    by (simp add: extractStoryId_def patterns_def a b split: option.splits)
qed

theorem extractStoryId_first_shape_witness:
  "extractStoryId ''https://www.tella.tv/video/abc123/view'' = Some ''abc123''
   \<and> extractStoryId ''https://www.tella.tv/stories/s9?x=/watch/w1'' = Some ''s9''
   \<and> extractStoryId ''https://www.tella.tv/videos'' = None"
proof -
  have v: "leftmost (idAfter ''/video/'' ''/view'') ''https://www.tella.tv/video/abc123/view''
           = Some ''abc123''"
    by code_simp
  have s: "leftmost (idAfter ''/video/'' ''/view'') ''https://www.tella.tv/stories/s9?x=/watch/w1'' = None"
    "leftmost (idAfter ''/video/'' []) ''https://www.tella.tv/stories/s9?x=/watch/w1'' = None"
    "leftmost (idAfter ''/stories/'' []) ''https://www.tella.tv/stories/s9?x=/watch/w1''
       = Some ''s9''"
    by code_simp+
  have n: "leftmost (idAfter ''/video/'' ''/view'') ''https://www.tella.tv/videos'' = None"
    "leftmost (idAfter ''/video/'' []) ''https://www.tella.tv/videos'' = None"
    "leftmost (idAfter ''/stories/'' []) ''https://www.tella.tv/videos'' = None"
    "leftmost (idAfter ''/watch/'' []) ''https://www.tella.tv/videos'' = None"
    by code_simp+
  show ?thesis
    using extractStoryId_first_shape [of "''https://www.tella.tv/video/abc123/view''"]
      extractStoryId_first_shape [of "''https://www.tella.tv/stories/s9?x=/watch/w1''"]
      extractStoryId_first_shape [of "''https://www.tella.tv/videos''"]
    by (simp only: v s n option.simps simp_thms)
qed

section \<open>Recursive pruning: the theorems\<close>

text \<open>
  C4. Pruning twice is pruning once, for every record; and
  \<^verbatim>\<open>{a: null, b: {c: null}, d: 0, e: ""}\<close> prunes to \<^verbatim>\<open>{d: 0, e: ""}\<close>.
\<close>

theorem cleanObject_idempotent:
  "cleanObject (cleanObject r) = cleanObject r
   \<and> cleanObject [(''a'', JNull), (''b'', JObj [(''c'', JNull)]), (''d'', JNum 0), (''e'', JStr [])]
       = [(''d'', JNum 0), (''e'', JStr [])]"
proof
  show "cleanObject (cleanObject r) = cleanObject r"
    by (induction r rule: cleanObject.induct) (auto simp: Let_def split: jsval.splits)
  show "cleanObject [(''a'', JNull), (''b'', JObj [(''c'', JNull)]), (''d'', JNum 0), (''e'', JStr [])]
       = [(''d'', JNum 0), (''e'', JStr [])]"
    by simp
qed

theorem cleanObject_idempotent_witness:
  "cleanObject (cleanObject [(''a'', JNull), (''b'', JObj [(''c'', JNull)]), (''d'', JNum 0)])
   = [(''d'', JNum 0)]"
  using cleanObject_idempotent [of "[(''a'', JNull), (''b'', JObj [(''c'', JNull)]), (''d'', JNum 0)]"]
  by simp


lemma cleanObject_keeps_leaf:
  assumes "map_of kvs key = Some v" and "v \<noteq> JNull" and "v \<noteq> JUndefined"
    and "\<And>inner. v \<noteq> JObj inner"
  shows "map_of (cleanObject kvs) key = Some v"
  using assms
proof (induction kvs)
  case Nil
  then show ?case by simp
next
  case (Cons p kvs)
  obtain k w where p: "p = (k, w)" by (cases p)
  show ?case using Cons unfolding p
    by (cases w) (auto simp: Let_def split: if_splits)
qed



lemma js_get_ok: "w \<noteq> JNull \<Longrightarrow> w \<noteq> JUndefined \<Longrightarrow> js_get w key = Inr (js_prop w key)"
  by (cases w) simp_all






section \<open>Transcript assembly: the theorems\<close>










lemma metadata_keys:
  "map_of (transcriptionMetadata td) ''transcriptionWords'' = None"
  "map_of (transcriptionMetadata td) ''transcript'' = None"
  "map_of (transcriptionMetadata td) ''transcriptWordCount'' = None"
  "map_of (transcriptionMetadata td) ''transcriptDurationMs'' = None"
  by (simp_all add: transcriptionMetadata_def Let_def)




section \<open>Locating the words: the theorems\<close>

lemma isArray_truthy: "isArray v \<Longrightarrow> truthy v"
  by (cases v) simp_all

lemma isArray_elems: "isArray v \<Longrightarrow> v = JArr (elems v)"
  by (cases v) simp_all

lemma locateWords_flat:
  "isArray (js_prop td ''words'') \<Longrightarrow> locateWords td = Inr (js_prop td ''words'')"
  by (simp add: locateWords_def Let_def isArray_truthy)

lemma locateWords_nested:
  assumes "\<not> isArray (js_prop td ''words'')" and "\<not> firstDetailMissing td"
  shows "\<exists>w. locateWords td = Inr w \<and> (isArray w \<longrightarrow> w = spec_nestedWords td)
             \<and> (isArray (spec_nestedWords td) \<longrightarrow> w = spec_nestedWords td)"
proof (cases "js_prop td ''transcriptions''")
  case (JArr t)
  show ?thesis
  proof (cases "js_index t 1")
    case (JArr d)
    then have len: "1 < length t" by (auto simp: js_index_def split: if_splits)
    show ?thesis
    proof (cases "d = []")
      case True
      then show ?thesis
        using assms(1) \<open>js_prop td ''transcriptions'' = JArr t\<close> JArr len
        by (simp add: locateWords_def Let_def spec_nestedWords_def js_index_def)
    next
      case False
      then have "js_index d 0 \<noteq> JNull" "js_index d 0 \<noteq> JUndefined"
        using assms \<open>js_prop td ''transcriptions'' = JArr t\<close> JArr
        by (auto simp: firstDetailMissing_def)
      then have "js_get (js_index d 0) ''words'' = Inr (js_prop (js_index d 0) ''words'')"
        by (rule js_get_ok)
      then show ?thesis
        using assms(1) \<open>js_prop td ''transcriptions'' = JArr t\<close> JArr len False
        by (simp add: locateWords_def Let_def spec_nestedWords_def)
    qed
  qed (use assms(1) \<open>js_prop td ''transcriptions'' = JArr t\<close> in
        \<open>auto simp: locateWords_def Let_def spec_nestedWords_def\<close>)
qed (use assms(1) in \<open>auto simp: locateWords_def Let_def spec_nestedWords_def\<close>)

lemma metadata_noFields: "noTranscriptFields (transcriptionMetadata td)"
  by (simp add: noTranscriptFields_def metadata_keys)

text \<open>
  C5, as stated, fails: on \<^verbatim>\<open>{transcriptions: ["completed", [null]]}\<close> neither location
  yields an array, and \<^verbatim>\<open>transcriptionDetails[0].words\<close> raises a \<^verbatim>\<open>TypeError\<close>.
\<close>

theorem parseTranscriptionData_null_detail_counterexample:
  "spec_words nullDetailPayload = None
   \<and> parseTranscriptionData nullDetailPayload = Inl TypeError"
  by code_simp

text \<open>
  C5, amended. For every transcription payload whose first detail
  \<^verbatim>\<open>transcriptions[1][0]\<close>, where the nested location is consulted, is neither
  \<^verbatim>\<open>null\<close> nor \<^verbatim>\<open>undefined\<close>: the word array is the top-level \<^verbatim>\<open>words\<close> when that
  is an array, and only otherwise \<^verbatim>\<open>transcriptions[1][0].words\<close>; when neither is an
  array, \<^verbatim>\<open>parseTranscriptionData\<close> returns without an error a result that carries
  none of the transcript fields.
\<close>

theorem words_located_flat_then_nested:
  assumes "\<not> firstDetailMissing td"
  shows "case spec_words td of
           Some ws \<Rightarrow> locateWords td = Inr (JArr ws)
         | None \<Rightarrow> (\<exists>r. parseTranscriptionData td = Inr r \<and> noTranscriptFields r)"
proof (cases "isArray (js_prop td ''words'')")
  case True
  then obtain ws where ws: "js_prop td ''words'' = JArr ws"
    using isArray_elems by blast
  then show ?thesis
    using locateWords_flat [OF True] by (simp add: spec_words_def)
next
  case False
  obtain w where w: "locateWords td = Inr w"
    and w1: "isArray w \<longrightarrow> w = spec_nestedWords td"
    and w2: "isArray (spec_nestedWords td) \<longrightarrow> w = spec_nestedWords td"
    using locateWords_nested [OF False assms] by blast
  have sw: "spec_words td = (case spec_nestedWords td of JArr ws \<Rightarrow> Some ws | _ \<Rightarrow> None)"
    using False by (cases "js_prop td ''words''") (simp_all add: spec_words_def)
  show ?thesis
  proof (cases "isArray (spec_nestedWords td)")
    case True
    then obtain ws where ws: "spec_nestedWords td = JArr ws"
      using isArray_elems by blast
    then show ?thesis using w w2 True by (simp add: sw)
  next
    case False
    then have nw: "\<not> isArray w" using w1 by auto
    have none: "spec_words td = None"
      using False by (cases "spec_nestedWords td") (simp_all add: sw)
    have "\<exists>r. parseTranscriptionData td = Inr r \<and> noTranscriptFields r"
    proof (cases "truthy td")
      case True
      then show ?thesis
        using w nw by (simp add: parseTranscriptionData_def metadata_noFields)
    next
      case False
      then show ?thesis
        by (simp add: parseTranscriptionData_def noTranscriptFields_def)
    qed
    then show ?thesis by (simp add: none)
  qed
qed

theorem words_located_flat_then_nested_witness:
  "locateWords (JObj [(''words'', JStr ''none''),
       (''transcriptions'', JArr [JStr ''completed'', JArr [JObj [(''words'', JArr helloWords)]]])])
     = Inr (JArr helloWords)
   \<and> (\<exists>r. parseTranscriptionData (JObj [(''transcriptions'', JArr [JStr ''completed''])]) = Inr r
          \<and> noTranscriptFields r)"
proof -
  have a: "\<not> firstDetailMissing (JObj [(''words'', JStr ''none''),
       (''transcriptions'', JArr [JStr ''completed'', JArr [JObj [(''words'', JArr helloWords)]]])])"
    by code_simp
  have sa: "spec_words (JObj [(''words'', JStr ''none''),
       (''transcriptions'', JArr [JStr ''completed'', JArr [JObj [(''words'', JArr helloWords)]]])])
     = Some helloWords"
    by code_simp
  have b: "\<not> firstDetailMissing (JObj [(''transcriptions'', JArr [JStr ''completed''])])"
    by code_simp
  have sb: "spec_words (JObj [(''transcriptions'', JArr [JStr ''completed''])]) = None"
    by code_simp
  show ?thesis
    using words_located_flat_then_nested [OF a] words_located_flat_then_nested [OF b]
    by (simp only: sa sb option.case simp_thms)
qed

section \<open>The two fetches: the theorems\<close>

lemma fetch_failed_document: "fetchFailed f \<Longrightarrow> fetchDocumentData f = JNull"
  by (cases f) auto

lemma fetch_failed_transcription: "fetchFailed f \<Longrightarrow> fetchTranscriptionData f = JNull"
  by (cases f) auto

lemma truthy_get: "truthy v \<Longrightarrow> js_get v key = Inr (js_prop v key)"
  by (cases v) simp_all

lemma parseDocumentData_no_transcription:
  assumes "truthy d"
  shows "parseDocumentData pg d JNull =
     (case parseChapters (numberString pg) (js_prop (js_or (js_prop d ''story'') d) ''chapters'') of
        Inl e \<Rightarrow> Inl e
      | Inr chapters \<Rightarrow>
          Inr (JObj (cleanObject (extractedData pg (js_or (js_prop d ''story'') d) chapters []))))"
  by (simp add: parseDocumentData_def parseTranscriptionData_def truthy_get [OF assms]
        sharedWithArray_def Let_def split: sum.splits)

text \<open>
  C6, as stated, fails in its second half. The document arrives with status 200 and a
  body that is JSON, the transcription fetch fails, and \<^verbatim>\<open>extractFromAPI\<close> returns
  \<^verbatim>\<open>null\<close>: once because \<^verbatim>\<open>parseChapters\<close> throws on a chapter entry that is
  \<^verbatim>\<open>null\<close> and the \<^verbatim>\<open>catch\<close> of \<^verbatim>\<open>extractFromAPI\<close> turns that into \<^verbatim>\<open>null\<close>, once
  because the body is the JSON value \<^verbatim>\<open>null\<close> and \<^verbatim>\<open>if (documentData)\<close> is not
  entered.
\<close>

theorem extractFromAPI_document_ok_counterexample:
  "\<not> fetchFailed (Responded True (Some nullChapterDocument))
   \<and> fetchFailed NetworkError
   \<and> extractFromAPI demoPage (Responded True (Some nullChapterDocument)) NetworkError = JNull
   \<and> \<not> fetchFailed (Responded True (Some JNull))
   \<and> extractFromAPI demoPage (Responded True (Some JNull)) NetworkError = JNull"
  by code_simp

text \<open>
  C6, amended. For every extraction attempt with an identifier: if the document fetch
  fails (network error, status outside 2xx, or a body that is no JSON) the
  structured-source path returns \<^verbatim>\<open>null\<close>; if the document arrives with a truthy body
  and only the transcription fetch fails, \<^verbatim>\<open>extractFromAPI\<close> returns what
  \<^verbatim>\<open>parseDocumentData\<close> builds from the document and a \<^verbatim>\<open>null\<close> transcription, that
  is, whenever the chapters parse, the cleaned record of the document with an empty
  transcription, and \<^verbatim>\<open>null\<close> when building it raises.
\<close>

theorem extractFromAPI_asymmetric:
  assumes "storyId pg = Some i" and "i \<noteq> []"
  shows "(fetchFailed document \<longrightarrow> extractFromAPI pg document transcription = JNull)
   \<and> (document = Responded True (Some d) \<and> truthy d \<and> fetchFailed transcription \<longrightarrow>
        extractFromAPI pg document transcription
          = (case parseDocumentData pg d JNull of Inr r \<Rightarrow> r | Inl e \<Rightarrow> JNull)
        \<and> (\<forall>chapters.
              parseChapters (numberString pg)
                (js_prop (js_or (js_prop d ''story'') d) ''chapters'') = Inr chapters
              \<longrightarrow> extractFromAPI pg document transcription
                    = JObj (cleanObject
                        (extractedData pg (js_or (js_prop d ''story'') d) chapters []))))"
proof -
  have idv: "truthy (idValue (storyId pg))"
    using assms by (simp add: idValue_def)
  have a: "extractFromAPI pg document transcription = JNull" if "fetchFailed document"
    using that idv by (simp add: extractFromAPI_def fetch_failed_document)
  have b: "extractFromAPI pg document transcription
          = (case parseDocumentData pg d JNull of Inr r \<Rightarrow> r | Inl e \<Rightarrow> JNull)"
    if "document = Responded True (Some d)" and "truthy d" and "fetchFailed transcription"
    using that idv by (simp add: extractFromAPI_def fetch_failed_transcription)
  have c: "extractFromAPI pg document transcription
          = JObj (cleanObject (extractedData pg (js_or (js_prop d ''story'') d) chapters []))"
    if "document = Responded True (Some d)" and "truthy d" and "fetchFailed transcription"
      and "parseChapters (numberString pg)
             (js_prop (js_or (js_prop d ''story'') d) ''chapters'') = Inr chapters"
    for chapters
    using b [OF that(1,2,3)] that(4)
    by (simp add: parseDocumentData_no_transcription [OF that(2)])
  from a b c show ?thesis by blast
qed

theorem extractFromAPI_asymmetric_witness:
  "extractFromAPI demoPage NetworkError (Responded True (Some JNull)) = JNull
   \<and> extractFromAPI demoPage (Responded True (Some endToEndDocument)) (Responded False None)
       = endToEndRecord"
proof -
  have i: "storyId demoPage = Some ''abc''" "''abc'' \<noteq> []"
    by (simp_all add: demoPage_def)
  have f: "fetchFailed NetworkError" "fetchFailed (Responded False None)"
    by simp_all
  have t: "truthy endToEndDocument" by (simp add: endToEndDocument_def)
  have p: "parseDocumentData demoPage endToEndDocument JNull = Inr endToEndRecord"
    by code_simp
  note a = extractFromAPI_asymmetric [OF i, of NetworkError "Responded True (Some JNull)" JNull]
  note b = extractFromAPI_asymmetric [OF i, of "Responded True (Some endToEndDocument)"
      "Responded False None" endToEndDocument]
  from a b f t show ?thesis by (simp add: p)
qed

section \<open>The webhook payload: the theorems\<close>




lemma markdown_absent:
  "\<not> truthy chapters \<or> \<not> isArray chapters \<or> elems chapters = [] \<Longrightarrow>
   formatChaptersAsMarkdown host chapters = Inr []"
  by (auto simp: formatChaptersAsMarkdown_def)









section \<open>Pruning in place: the theorems\<close>

lemma kept_refl: "kept s s"
  unfolding kept_def by (intro conjI allI impI) auto

lemma kept_array: "kept s s' \<Longrightarrow> s a = Some (ArrayCell xs) \<Longrightarrow> s' a = Some (ArrayCell xs)"
  unfolding kept_def by (elim conjE) (erule allE [of _ a], erule allE [of _ xs], simp)

lemma kept_shrinks:
  assumes "kept s s'" and "s obj = Some (ObjectCell props)"
  obtains props' where "s' obj = Some (ObjectCell props')"
    and "\<And>k v. map_of props' k = Some v \<Longrightarrow> map_of props k = Some v"
proof -
  have "\<forall>obj props. s obj = Some (ObjectCell props) \<longrightarrow>
            (\<exists>props'. s' obj = Some (ObjectCell props')
               \<and> (\<forall>k v. map_of props' k = Some v \<longrightarrow> map_of props k = Some v))"
    using assms(1) unfolding kept_def by (elim conjE)
  then have "\<exists>props'. s' obj = Some (ObjectCell props')
               \<and> (\<forall>k v. map_of props' k = Some v \<longrightarrow> map_of props k = Some v)"
    using assms(2) by (elim allE [of _ obj] allE [of _ props]) simp
  then show ?thesis using that by blast
qed

lemma kept_array_key:
  assumes "kept s s'" and "s obj = Some (ObjectCell props)"
    and "map_of props k = Some (SRef a)" and "s a = Some (ArrayCell xs)"
  shows "\<exists>props'. s' obj = Some (ObjectCell props') \<and> map_of props' k = Some (SRef a)"
proof -
  have "\<forall>obj props k a xs.
            s obj = Some (ObjectCell props) \<and> map_of props k = Some (SRef a)
              \<and> s a = Some (ArrayCell xs) \<longrightarrow>
            (\<exists>props'. s' obj = Some (ObjectCell props') \<and> map_of props' k = Some (SRef a))"
    using assms(1) unfolding kept_def by (elim conjE)
  then have "s obj = Some (ObjectCell props) \<and> map_of props k = Some (SRef a)
              \<and> s a = Some (ArrayCell xs) \<longrightarrow>
            (\<exists>props'. s' obj = Some (ObjectCell props') \<and> map_of props' k = Some (SRef a))"
    by (elim allE [of _ obj] allE [of _ props] allE [of _ k] allE [of _ a] allE [of _ xs])
  then show ?thesis using assms(2,3,4) by simp
qed

lemma kept_was_object:
  assumes "kept s s'" and "s' obj = Some (ObjectCell props')"
  shows "\<exists>props. s obj = Some (ObjectCell props)"
proof -
  have "\<forall>obj props'. s' obj = Some (ObjectCell props') \<longrightarrow>
            (\<exists>props. s obj = Some (ObjectCell props))"
    using assms(1) unfolding kept_def by (elim conjE)
  then show ?thesis using assms(2) by (elim allE [of _ obj] allE [of _ props']) simp
qed

lemma kept_trans:
  assumes "kept s t" and "kept t u"
  shows "kept s u"
  unfolding kept_def
proof (intro conjI allI impI)
  fix a xs assume "s a = Some (ArrayCell xs)"
  then show "u a = Some (ArrayCell xs)"
    using assms by (blast intro: kept_array)
next
  fix obj props assume s: "s obj = Some (ObjectCell props)"
  obtain p1 where t: "t obj = Some (ObjectCell p1)"
    and sub1: "\<And>k v. map_of p1 k = Some v \<Longrightarrow> map_of props k = Some v"
    using kept_shrinks [OF assms(1) s] by blast
  obtain p2 where u: "u obj = Some (ObjectCell p2)"
    and sub2: "\<And>k v. map_of p2 k = Some v \<Longrightarrow> map_of p1 k = Some v"
    using kept_shrinks [OF assms(2) t] by blast
  show "\<exists>props'. u obj = Some (ObjectCell props')
          \<and> (\<forall>k v. map_of props' k = Some v \<longrightarrow> map_of props k = Some v)"
    using u sub1 sub2 by blast
next
  fix obj props k a xs
  assume h: "s obj = Some (ObjectCell props) \<and> map_of props k = Some (SRef a)
             \<and> s a = Some (ArrayCell xs)"
  obtain p1 where t: "t obj = Some (ObjectCell p1)" and k1: "map_of p1 k = Some (SRef a)"
    using kept_array_key [OF assms(1)] h by blast
  have ta: "t a = Some (ArrayCell xs)"
    using h kept_array [OF assms(1)] by blast
  show "\<exists>props'. u obj = Some (ObjectCell props') \<and> map_of props' k = Some (SRef a)"
    using kept_array_key [OF assms(2) t k1 ta] .
next
  fix obj props' assume "u obj = Some (ObjectCell props')"
  then obtain p1 where "t obj = Some (ObjectCell p1)"
    using kept_was_object [OF assms(2)] by blast
  then show "\<exists>props. s obj = Some (ObjectCell props)"
    using kept_was_object [OF assms(1)] by blast
qed

lemma map_of_removeKey:
  "map_of (removeKey key props) k = (if k = key then None else map_of props k)"
  by (induction props) (auto simp: removeKey_def)

lemma kept_delete:
  assumes "s obj = Some (ObjectCell props)"
    and "\<And>a xs. map_of props key = Some (SRef a) \<Longrightarrow> s a \<noteq> Some (ArrayCell xs)"
  shows "kept s (deleteKey s obj key)"
proof -
  define t where "t = s(obj \<mapsto> ObjectCell (removeKey key props))"
  have d: "deleteKey s obj key = t"
    using assms(1) by (simp add: deleteKey_def t_def)
  have at: "t obj = Some (ObjectCell (removeKey key props))"
    by (simp add: t_def)
  have other: "t a = s a" if "a \<noteq> obj" for a
    using that by (simp add: t_def)
  have "kept s t"
    unfolding kept_def
  proof (intro conjI allI impI)
    fix a xs assume "s a = Some (ArrayCell xs)"
    then show "t a = Some (ArrayCell xs)"
      using assms(1) other [of a] by (cases "a = obj") simp_all
  next
    fix o1 p assume h: "s o1 = Some (ObjectCell p)"
    show "\<exists>props'. t o1 = Some (ObjectCell props')
            \<and> (\<forall>k v. map_of props' k = Some v \<longrightarrow> map_of p k = Some v)"
    proof (cases "o1 = obj")
      case True
      then have "p = props" using h assms(1) by simp
      then show ?thesis
        using True at by (simp add: map_of_removeKey)
    next
      case False
      then show ?thesis using h other [OF False] by simp
    qed
  next
    fix o1 p k a xs
    assume h: "s o1 = Some (ObjectCell p) \<and> map_of p k = Some (SRef a)
               \<and> s a = Some (ArrayCell xs)"
    show "\<exists>props'. t o1 = Some (ObjectCell props') \<and> map_of props' k = Some (SRef a)"
    proof (cases "o1 = obj")
      case True
      then have p: "p = props" using h assms(1) by simp
      have "k \<noteq> key" using assms(2) h p by blast
      then show ?thesis
        using True at h p by (simp add: map_of_removeKey)
    next
      case False
      then show ?thesis using h other [OF False] by simp
    qed
  next
    fix o1 p' assume h: "t o1 = Some (ObjectCell p')"
    show "\<exists>p. s o1 = Some (ObjectCell p)"
      using h assms(1) other [of o1] by (cases "o1 = obj") simp_all
  qed
  then show ?thesis by (simp add: d)
qed

lemma cleanKeys_kept: "cleanKeys fuel obj keys s = Some s' \<Longrightarrow> kept s s'"
proof (induction fuel arbitrary: obj keys s s' rule: less_induct)
  case (less fuel)
  show ?case using less.prems
  proof (induction keys arbitrary: s)
    case Nil
    then show ?case by (simp add: kept_refl)
  next
    case (Cons key keys)
    from Cons.prems obtain props where obj: "s obj = Some (ObjectCell props)"
      by (auto split: option.splits cell.splits)
    show ?case
    proof (cases "map_of props key")
      case None
      then have "cleanKeys fuel obj keys s = Some s'"
        using Cons.prems obj by simp
      then show ?thesis by (rule Cons.IH)
    next
      case (Some v)
      consider (null) "v = SNull \<or> v = SUndefined"
        | (object) r inner where "v = SRef r" "s r = Some (ObjectCell inner)"
        | (other) "v \<noteq> SNull" "v \<noteq> SUndefined"
            "\<And>r inner. v = SRef r \<Longrightarrow> s r \<noteq> Some (ObjectCell inner)"
        by blast
      then show ?thesis
      proof cases
        case null
        then have run: "cleanKeys fuel obj keys (deleteKey s obj key) = Some s'"
          using Cons.prems obj Some by auto
        have "kept s (deleteKey s obj key)"
          using kept_delete [of s obj props key] obj Some null by auto
        then show ?thesis using Cons.IH [OF run] by (rule kept_trans)
      next
        case object
        from Cons.prems obj Some object obtain n where fuel: "fuel = Suc n"
          by (cases fuel) auto
        from Cons.prems obj Some object fuel obtain s1 where
          inner: "cleanKeys n r (map fst inner) s = Some s1"
          by (auto split: option.splits)
        have k1: "kept s s1" using less.IH [OF _ inner] fuel by simp
        obtain p1 where p1: "s1 obj = Some (ObjectCell p1)"
          and sub: "\<And>k w. map_of p1 k = Some w \<Longrightarrow> map_of props k = Some w"
          using kept_shrinks [OF k1 obj] by blast
        obtain i1 where i1: "s1 r = Some (ObjectCell i1)"
          using kept_shrinks [OF k1 object(2)] by blast
        show ?thesis
        proof (cases "i1 = []")
          case True
          then have run: "cleanKeys fuel obj keys (deleteKey s1 obj key) = Some s'"
            using Cons.prems obj Some object fuel inner i1 by simp
          have "s1 a \<noteq> Some (ArrayCell xs)" if "map_of p1 key = Some (SRef a)" for a xs
          proof -
            have "map_of props key = Some (SRef a)" using that sub by blast
            then have "a = r" using Some object by simp
            then show ?thesis using i1 by simp
          qed
          then have "kept s1 (deleteKey s1 obj key)"
            using kept_delete [of s1 obj p1 key] p1 by blast
          then have "kept s1 s'" using Cons.IH [OF run] by (rule kept_trans)
          with k1 show ?thesis by (rule kept_trans)
        next
          case False
          then have run: "cleanKeys fuel obj keys s1 = Some s'"
            using Cons.prems obj Some object fuel inner i1 by simp
          from k1 Cons.IH [OF run] show ?thesis by (rule kept_trans)
        qed
      next
        case other
        then have "cleanKeys fuel obj keys s = Some s'"
          using Cons.prems obj Some
          by (cases v) (auto split: option.splits cell.splits)
        then show ?thesis by (rule Cons.IH)
      qed
    qed
  qed
qed

lemma ranked_kept:
  assumes "ranked rank s" and "kept s s'"
  shows "ranked rank s'"
  unfolding ranked_def
proof (intro allI impI)
  fix obj props' k r inner'
  assume h: "s' obj = Some (ObjectCell props') \<and> map_of props' k = Some (SRef r)
             \<and> s' r = Some (ObjectCell inner')"
  then obtain props where p: "s obj = Some (ObjectCell props)"
    using kept_was_object [OF assms(2)] by blast
  obtain p1 where p1: "s' obj = Some (ObjectCell p1)"
    and sub: "\<And>k v. map_of p1 k = Some v \<Longrightarrow> map_of props k = Some v"
    using kept_shrinks [OF assms(2) p] by blast
  have "p1 = props'" using p1 h by simp
  then have m: "map_of props k = Some (SRef r)" using sub h by blast
  obtain inner where i: "s r = Some (ObjectCell inner)"
    using h kept_was_object [OF assms(2)] by blast
  show "rank r < rank obj"
    using assms(1) p m i unfolding ranked_def by blast
qed

lemma kept_object:
  "kept s s' \<Longrightarrow> s obj = Some (ObjectCell props) \<Longrightarrow> \<exists>props'. s' obj = Some (ObjectCell props')"
  by (erule kept_shrinks) blast+

lemma cleanKeys_returns:
  "ranked rank s \<Longrightarrow> s obj = Some (ObjectCell props) \<Longrightarrow> rank obj \<le> fuel \<Longrightarrow>
   \<exists>s'. cleanKeys fuel obj keys s = Some s'"
proof (induction fuel arbitrary: obj keys s props rule: less_induct)
  case (less fuel)
  show ?case using less.prems(1,2)
  proof (induction keys arbitrary: s props)
    case Nil
    then show ?case by simp
  next
    case (Cons key keys)
    note obj = Cons.prems(2)
    show ?case
    proof (cases "map_of props key")
      case None
      then show ?thesis
        using Cons.IH [OF Cons.prems] obj by simp
    next
      case (Some v)
      consider (null) "v = SNull \<or> v = SUndefined"
        | (object) r inner where "v = SRef r" "s r = Some (ObjectCell inner)"
        | (other) "v \<noteq> SNull" "v \<noteq> SUndefined"
            "\<And>r inner. v = SRef r \<Longrightarrow> s r \<noteq> Some (ObjectCell inner)"
        by blast
      then show ?thesis
      proof cases
        case null
        have k: "kept s (deleteKey s obj key)"
          using kept_delete [of s obj props key] obj Some null by auto
        obtain p1 where p1: "deleteKey s obj key obj = Some (ObjectCell p1)"
          using kept_object [OF k obj] by blast
        show ?thesis
          using Cons.IH [OF ranked_kept [OF Cons.prems(1) k] p1] obj Some null by auto
      next
        case object
        have lt: "rank r < rank obj"
          using Cons.prems(1) obj Some object unfolding ranked_def by blast
        then obtain n where fuel: "fuel = Suc n" and le: "rank r \<le> n"
          using less.prems(3) by (cases fuel) auto
        obtain s1 where inner: "cleanKeys n r (map fst inner) s = Some s1"
          using less.IH [of n s r inner "map fst inner"] fuel le Cons.prems(1) object(2)
          by auto
        have k1: "kept s s1" using inner by (rule cleanKeys_kept)
        have r1: "ranked rank s1" using Cons.prems(1) k1 by (rule ranked_kept)
        obtain p1 where p1: "s1 obj = Some (ObjectCell p1)"
          and sub: "\<And>k w. map_of p1 k = Some w \<Longrightarrow> map_of props k = Some w"
          using kept_shrinks [OF k1 obj] by blast
        obtain i1 where i1: "s1 r = Some (ObjectCell i1)"
          using kept_object [OF k1 object(2)] by blast
        show ?thesis
        proof (cases "i1 = []")
          case True
          have "s1 a \<noteq> Some (ArrayCell xs)" if "map_of p1 key = Some (SRef a)" for a xs
          proof -
            have "map_of props key = Some (SRef a)" using that sub by blast
            then have "a = r" using Some object by simp
            then show ?thesis using i1 by simp
          qed
          then have k2: "kept s1 (deleteKey s1 obj key)"
            using kept_delete [of s1 obj p1 key] p1 by blast
          obtain p2 where p2: "deleteKey s1 obj key obj = Some (ObjectCell p2)"
            using kept_object [OF k2 p1] by blast
          show ?thesis
            using Cons.IH [OF ranked_kept [OF r1 k2] p2] obj Some object fuel inner i1 True
            by simp
        next
          case False
          show ?thesis
            using Cons.IH [OF r1 p1] obj Some object fuel inner i1 False by simp
        qed
      next
        case other
        show ?thesis
          using Cons.IH [OF Cons.prems] obj Some other
          by (cases v) (auto split: option.splits cell.splits)
      qed
    qed
  qed
qed

lemma cleanObject_keeps_array:
  "map_of kvs key = Some (JArr xs) \<Longrightarrow> map_of (cleanObject kvs) key = Some (JArr xs)"
  by (rule cleanObject_keeps_leaf) simp_all

text \<open>On a record without sharing, pruning in the store and pruning the tree give the
  same record: here on \<open>treeStore\<close>.\<close>

lemma cleanObjectS_tree_example:
  "(case cleanObjectS 4 0 treeStore of
      Some s' \<Rightarrow> readback 4 s' (SRef 0) | None \<Rightarrow> JUndefined)
   = JObj (cleanObject [(''a'', JNull), (''b'', JObj [(''c'', JNull)]), (''d'', JNum 0),
                        (''e'', JStr []), (''f'', JArr [JObj [(''g'', JNull)]])])
   \<and> readback 4 treeStore (SRef 0)
     = JObj [(''a'', JNull), (''b'', JObj [(''c'', JNull)]), (''d'', JNum 0),
             (''e'', JStr []), (''f'', JArr [JObj [(''g'', JNull)]])]"
  by code_simp

text \<open>The record model, with \<open>sharedWithArray\<close>, shows the same array for the same
  payload as the store does below.\<close>

lemma parseDocumentData_shared_example:
  "(case parseDocumentData demoPage endToEndDocument sharedPayload of
      Inr r \<Rightarrow> js_prop (js_prop r ''content'') ''transcription''
    | Inl e \<Rightarrow> JUndefined)
   = JObj [(''transcriptionMetadata'', JArr [JObj [], JStr ''x'']),
           (''transcriptionDetails'', JStr ''x'')]"
  by code_simp

text \<open>
  C10, as stated, fails where the input shares an object between an array and a key
  of its own. For the payload \<^verbatim>\<open>{transcriptions: [{a: null}, "x"]}\<close> the transcription
  object holds \<^verbatim>\<open>transcriptions[0]\<close> inside the array \<^verbatim>\<open>transcriptionMetadata\<close> and
  under \<^verbatim>\<open>transcriptionStatus\<close>. After \<^verbatim>\<open>cleanObject\<close> the key
  \<^verbatim>\<open>transcriptionMetadata\<close> is bound to the same array, but the \<^verbatim>\<open>null\<close> field of its
  element object is gone: the element was pruned through \<^verbatim>\<open>transcriptionStatus\<close>.
\<close>

theorem cleanObject_shared_element_counterexample:
  "readback 4 sharedStore (SRef 0)
     = JObj [(''transcriptionMetadata'', JArr [JObj [(''a'', JNull)], JStr ''x'']),
             (''transcriptionStatus'', JObj [(''a'', JNull)]),
             (''transcriptionDetails'', JStr ''x'')]
   \<and> (case cleanObjectS 4 0 sharedStore of
         Some s' \<Rightarrow> readback 4 s' (SRef 0) | None \<Rightarrow> JUndefined)
       = JObj [(''transcriptionMetadata'', JArr [JObj [], JStr ''x'']),
               (''transcriptionDetails'', JStr ''x'')]"
  by code_simp

text \<open>
  C10, amended. \<^verbatim>\<open>cleanObject\<close> never writes to an array and never removes one: when
  it returns, every array of the store has the elements it had, an empty array
  included, and every key whose value is an array is still present and bound to the
  same array; it returns on every store without a cycle through objects. On a record
  that shares no object (a tree), the key is bound to the identical array with all
  that it holds, \<^verbatim>\<open>null\<close> and \<^verbatim>\<open>undefined\<close> fields of its element objects included.
\<close>

theorem cleanObject_leaves_arrays:
  "(cleanObjectS fuel start s = Some s' \<longrightarrow>
      (\<forall>a xs. s a = Some (ArrayCell xs) \<longrightarrow> s' a = Some (ArrayCell xs))
      \<and> (\<forall>obj props key a xs.
            s obj = Some (ObjectCell props) \<and> map_of props key = Some (SRef a)
              \<and> s a = Some (ArrayCell xs) \<longrightarrow>
            (\<exists>props'. s' obj = Some (ObjectCell props') \<and> map_of props' key = Some (SRef a))))
   \<and> (ranked rank s \<and> s start = Some (ObjectCell props0) \<and> rank start \<le> fuel \<longrightarrow>
        (\<exists>t. cleanObjectS fuel start s = Some t))
   \<and> (map_of kvs k = Some (JArr ys) \<longrightarrow> map_of (cleanObject kvs) k = Some (JArr ys))"
proof -
  have "kept s s'" if "cleanObjectS fuel start s = Some s'"
    using that by (auto simp: cleanObjectS_def split: option.splits cell.splits
        intro: cleanKeys_kept)
  moreover have "\<exists>t. cleanObjectS fuel start s = Some t"
    if "ranked rank s" and "s start = Some (ObjectCell props0)" and "rank start \<le> fuel"
    using cleanKeys_returns [OF that, of "map fst props0"] that(2)
    by (simp add: cleanObjectS_def)
  ultimately show ?thesis
    using cleanObject_keeps_array [of kvs k ys]
    by (blast intro: kept_array kept_array_key)
qed

theorem cleanObject_leaves_arrays_witness:
  "(\<exists>t. cleanObjectS 4 0 sharedStore = Some t
        \<and> t 1 = Some (ArrayCell [SRef 2, SStr ''x''])
        \<and> (\<exists>props'. t 0 = Some (ObjectCell props')
              \<and> map_of props' ''transcriptionMetadata'' = Some (SRef 1)))
   \<and> map_of (cleanObject [(''gone'', JNull), (''tags'', JArr []),
                           (''chapters'', JArr [JObj [(''id'', JNull)]])]) ''chapters''
       = Some (JArr [JObj [(''id'', JNull)]])"
proof -
  define rank :: "nat \<Rightarrow> nat" where "rank = (\<lambda>a. if a = 0 then 1 else 0)"
  have r: "ranked rank sharedStore"
    unfolding ranked_def sharedStore_def rank_def
    by (auto split: if_splits)
  have c0: "sharedStore 0 = Some (ObjectCell
      [(''transcriptionMetadata'', SRef 1), (''transcriptionStatus'', SRef 2),
       (''transcriptionDetails'', SStr ''x'')])"
    by (simp add: sharedStore_def)
  have c1: "sharedStore 1 = Some (ArrayCell [SRef 2, SStr ''x''])"
    by (simp add: sharedStore_def)
  have le: "rank 0 \<le> 4" by (simp add: rank_def)
  have m: "map_of [(''transcriptionMetadata'', SRef 1), (''transcriptionStatus'', SRef 2),
       (''transcriptionDetails'', SStr ''x'')] ''transcriptionMetadata'' = Some (SRef 1)"
    by simp
  have tree: "map_of [(''gone'', JNull), (''tags'', JArr []),
       (''chapters'', JArr [JObj [(''id'', JNull)]])] ''chapters''
     = Some (JArr [JObj [(''id'', JNull)]])"
    by simp
  note all = cleanObject_leaves_arrays [of 4 0 sharedStore _ rank _
      "[(''gone'', JNull), (''tags'', JArr []), (''chapters'', JArr [JObj [(''id'', JNull)]])]"
      "''chapters''" "[JObj [(''id'', JNull)]]"]
  note ret = all [of _ "[(''transcriptionMetadata'', SRef 1), (''transcriptionStatus'', SRef 2),
       (''transcriptionDetails'', SStr ''x'')]", THEN conjunct2, THEN conjunct1, THEN mp]
  have "\<exists>t. cleanObjectS 4 0 sharedStore = Some t"
    by (rule ret) (intro conjI r c0 le)
  then obtain t where t: "cleanObjectS 4 0 sharedStore = Some t" ..
  note frame = all [of t, THEN conjunct1, THEN mp, OF t]
  have a: "t 1 = Some (ArrayCell [SRef 2, SStr ''x''])"
    using frame [THEN conjunct1, THEN spec, THEN spec, THEN mp, OF c1] .
  have b: "\<exists>props'. t 0 = Some (ObjectCell props')
              \<and> map_of props' ''transcriptionMetadata'' = Some (SRef 1)"
    using frame [THEN conjunct2, THEN spec [where x = 0],
        THEN spec [where x = "[(''transcriptionMetadata'', SRef 1),
          (''transcriptionStatus'', SRef 2), (''transcriptionDetails'', SStr ''x'')]"],
        THEN spec [where x = "''transcriptionMetadata''"], THEN spec [where x = 1],
        THEN spec [where x = "[SRef 2, SStr ''x'']"], THEN mp] c0 m c1
    by (simp only: simp_thms)
  have c: "map_of (cleanObject [(''gone'', JNull), (''tags'', JArr []),
                           (''chapters'', JArr [JObj [(''id'', JNull)]])]) ''chapters''
       = Some (JArr [JObj [(''id'', JNull)]])"
    using all [of t, THEN conjunct2, THEN conjunct2, THEN mp, OF tree] .
  from t a b c show ?thesis by blast
qed

end
